theory Spec2Isabelle
  imports Complex_Main
begin

section \<open>JavaScript values and option objects\<close>

text \<open>
  The wrapper class \<open>VFXParticles\<close> (packages/vanilla-vfx/src/VFXParticles.ts) keeps its
  options in a \<open>Record<string, any>\<close>. A value of type \<open>any\<close> is a \<open>jsval\<close>; an object is
  the list of its properties, where the first entry of a key is the one that counts.
  A finite number held in an option value is \<open>JNum\<close> of its value; NaN and the two
  infinities are values of their own. The numbers the class computes with are doubles,
  see \<open>num\<close> below.
\<close>

datatype num = NaN | PInf | NInf | Fin real
  \<comment> \<open>a JavaScript number: an IEEE 754 double. \<open>Fin r\<close> is the finite double of value \<open>r\<close>;
      the two zeros are one value, which no operation of the class tells apart.\<close>

fun fneg :: "num \<Rightarrow> num" where
  "fneg NaN = NaN"
| "fneg PInf = NInf"
| "fneg NInf = PInf"
| "fneg (Fin a) = Fin (- a)"

fun fadd :: "(real \<Rightarrow> num) \<Rightarrow> num \<Rightarrow> num \<Rightarrow> num" where
  \<comment> \<open>\<open>a + b\<close> on doubles. The sum of two finite doubles is the exact sum rounded;
      \<open>rnd\<close> is the rounding of IEEE 754 (to the nearest double, ties to even, beyond the
      largest double to an infinity), of which nothing is assumed.\<close>
  "fadd rnd NaN b = NaN"
| "fadd rnd a NaN = NaN"
| "fadd rnd PInf NInf = NaN"
| "fadd rnd NInf PInf = NaN"
| "fadd rnd PInf b = PInf"
| "fadd rnd NInf b = NInf"
| "fadd rnd a PInf = PInf"
| "fadd rnd a NInf = NInf"
| "fadd rnd (Fin a) (Fin b) = rnd (a + b)"

definition fsub :: "(real \<Rightarrow> num) \<Rightarrow> num \<Rightarrow> num \<Rightarrow> num" where
  \<comment> \<open>\<open>a - b\<close> on doubles\<close>
  "fsub rnd a b = fadd rnd a (fneg b)"

fun fge :: "num \<Rightarrow> num \<Rightarrow> bool" where
  \<comment> \<open>\<open>a >= b\<close> on doubles: false as soon as one side is NaN\<close>
  "fge NaN b = False"
| "fge a NaN = False"
| "fge PInf b = True"
| "fge a NInf = True"
| "fge NInf b = False"
| "fge a PInf = False"
| "fge (Fin a) (Fin b) = (a \<ge> b)"

definition fgt :: "num \<Rightarrow> num \<Rightarrow> bool" where
  \<comment> \<open>\<open>a > b\<close> on doubles\<close>
  "fgt a b = (fge a b \<and> \<not> fge b a)"

definition falsy_num :: "num \<Rightarrow> bool" where
  \<comment> \<open>\<open>!a\<close> on a number: zero and NaN\<close>
  "falsy_num a = (a = Fin 0 \<or> a = NaN)"

datatype jsval =
    JUndefined
  | JNull
  | JBool bool
  | JNum real
  | JNaN
  | JInfinity
  | JNegInfinity
  | JStr string
  | JArr "jsval list"
  | JObj "(string \<times> jsval) list"

type_synonym props = "(string \<times> jsval) list"

definition has_key :: "props \<Rightarrow> string \<Rightarrow> bool" where
  \<comment> \<open>\<open>key in obj\<close>\<close>
  "has_key obj key = (map_of obj key \<noteq> None)"

definition get_prop :: "props \<Rightarrow> string \<Rightarrow> jsval" where
  \<comment> \<open>\<open>obj.key\<close>: a missing property reads as \<open>undefined\<close>\<close>
  "get_prop obj key = (case map_of obj key of None \<Rightarrow> JUndefined | Some v \<Rightarrow> v)"

definition spread :: "props \<Rightarrow> props \<Rightarrow> props" where
  \<comment> \<open>\<open>{ ...a, ...b }\<close>: the properties of \<open>b\<close> override those of \<open>a\<close>\<close>
  "spread a b = b @ a"

definition assign :: "props \<Rightarrow> string \<Rightarrow> jsval \<Rightarrow> props" where
  \<comment> \<open>\<open>obj.key = v\<close>, and \<open>{ ...obj, key: v }\<close>\<close>
  "assign obj key v = (key, v) # obj"

definition nullish :: "jsval \<Rightarrow> bool" where
  "nullish v = (v = JNull \<or> v = JUndefined)"

definition coalesce :: "jsval \<Rightarrow> jsval \<Rightarrow> jsval" where
  \<comment> \<open>\<open>a ?? b\<close>\<close>
  "coalesce a b = (if nullish a then b else a)"

fun truthy :: "jsval \<Rightarrow> bool" where
  "truthy JUndefined = False"
| "truthy JNull = False"
| "truthy (JBool b) = b"
| "truthy (JNum r) = (r \<noteq> 0)"
| "truthy JNaN = False"
| "truthy JInfinity = True"
| "truthy JNegInfinity = True"
| "truthy (JStr s) = (s \<noteq> [])"
| "truthy (JArr xs) = True"
| "truthy (JObj ps) = True"

fun member_opt :: "jsval \<Rightarrow> string \<Rightarrow> jsval" where
  \<comment> \<open>\<open>v?.key\<close> for the two keys the wrapper reads this way, \<open>intensity\<close> and \<open>length\<close>\<close>
  "member_opt (JObj ps) key = get_prop ps key"
| "member_opt (JArr xs) key = (if key = ''length'' then JNum (real (length xs)) else JUndefined)"
| "member_opt (JStr s) key = (if key = ''length'' then JNum (real (length s)) else JUndefined)"
| "member_opt v key = JUndefined"

fun to_number :: "(jsval \<Rightarrow> num) \<Rightarrow> jsval \<Rightarrow> num" where
  \<comment> \<open>the conversion of a value to a number that \<open>>\<close> applies: \<open>undefined\<close> gives NaN,
      \<open>null\<close> 0, a boolean 0 or 1. \<open>conv\<close> is the conversion of ECMAScript for strings,
      arrays and objects (\<open>'5'\<close> gives 5, \<open>[]\<close> gives 0, \<open>'x'\<close> gives NaN), of which nothing
      is assumed.\<close>
  "to_number conv JUndefined = NaN"
| "to_number conv JNull = Fin 0"
| "to_number conv (JBool b) = Fin (if b then 1 else 0)"
| "to_number conv (JNum r) = Fin r"
| "to_number conv JNaN = NaN"
| "to_number conv JInfinity = PInf"
| "to_number conv JNegInfinity = NInf"
| "to_number conv v = conv v"

fun as_num :: "jsval \<Rightarrow> num option" where
  \<comment> \<open>the number a value is, when it is one\<close>
  "as_num (JNum r) = Some (Fin r)"
| "as_num JNaN = Some NaN"
| "as_num JInfinity = Some PInf"
| "as_num JNegInfinity = Some NInf"
| "as_num v = None"

definition js_gt :: "(jsval \<Rightarrow> num) \<Rightarrow> jsval \<Rightarrow> real \<Rightarrow> bool" where
  \<comment> \<open>\<open>v > n\<close> against a number literal\<close>
  "js_gt conv v n = fgt (to_number conv v) (Fin n)"

section \<open>The core particle system, as the wrapper sees it\<close>

text \<open>
  \<open>VFXParticleSystem\<close>, \<open>isNonDefaultRotation\<close> and \<open>updateUniformsPartial\<close> come from the
  package core-vfx, and \<open>DEFAULT_VALUES\<close>, \<open>createGeometry\<close>, \<open>GeometryType\<close> and the debug
  panel from debug-vfx. A system object is the record of the fields the wrapper reads,
  together with the particles it holds; every call the wrapper makes on a collaborator is
  appended to a trace.
\<close>

record particle =
  age :: num
  position :: "num \<times> num \<times> num"

record features =
  turbulence :: bool
  attractors :: bool
  collision :: bool
  needsRotation :: bool
  needsPerParticleColor :: bool

record core_system =
  sys_id :: nat                          \<comment> \<open>the identity of the object and of its \<open>renderObject\<close>\<close>
  sys_initialized :: bool                \<comment> \<open>\<open>initialized\<close>\<close>
  sys_delay :: num                       \<comment> \<open>\<open>normalizedProps.delay\<close>\<close>
  sys_emitCount :: num                   \<comment> \<open>\<open>normalizedProps.emitCount\<close>\<close>
  sys_position :: "num \<times> num \<times> num"      \<comment> \<open>\<open>position\<close>\<close>
  sys_features :: features               \<comment> \<open>\<open>features\<close>\<close>
  sys_has_material :: bool               \<comment> \<open>whether \<open>material\<close> is set\<close>
  uColorStart :: jsval                   \<comment> \<open>the colours behind the \<open>colorStart\<close> uniforms\<close>
  uColorEnd :: jsval                     \<comment> \<open>the colours behind the \<open>colorEnd\<close> uniforms\<close>
  sys_particles :: "particle list"       \<comment> \<open>the live particles of the buffer\<close>

datatype core_call =
    CInit
  | CSpawn num num num num "props option"
  | CUpdate num
  | CDispose
  | CStart
  | CStop
  | CClear
  | CSetPosition jsval
  | CSetDelay jsval
  | CSetEmitCount jsval
  | CUpdateUniformsPartial props
  | CSetBlending jsval

datatype event =
    Construct props              \<comment> \<open>\<open>new VFXParticleSystem(renderer, config)\<close>\<close>
  | CoreCall nat core_call       \<comment> \<open>a call on the system object with this identity\<close>
  | RenderDebugPanel props       \<comment> \<open>\<open>renderDebugPanel(values, callback)\<close>\<close>
  | DestroyDebugPanel            \<comment> \<open>\<open>destroyDebugPanel()\<close>\<close>

datatype completion = Resolved | Rejected

text \<open>
  What the sources leave open is a parameter of the model: whether the construction and
  the initialisation of a system succeed and what system they give, what \<open>spawn\<close>, \<open>update\<close>
  and \<open>clear\<close> of the core make of the particles, the imported helpers, and from the
  language the conversion of a string, array or object to a number and the rounding of a
  sum to a double. No theorem assumes anything of them but what it says.
\<close>

record env =
  new_system :: "props \<Rightarrow> core_system option"
    \<comment> \<open>the constructor of \<open>VFXParticleSystem\<close>; \<open>None\<close> when it throws\<close>
  system_init :: "core_system \<Rightarrow> core_system option"
    \<comment> \<open>\<open>await s.init()\<close>: the object once initialised; \<open>None\<close> when the promise rejects\<close>
  particles_after :: "core_call \<Rightarrow> particle list \<Rightarrow> particle list"
    \<comment> \<open>the particles of a system after its \<open>spawn\<close>, \<open>update\<close> or \<open>clear\<close>\<close>
  isNonDefaultRotation :: "jsval \<Rightarrow> bool"
  ToNumber :: "jsval \<Rightarrow> num"
    \<comment> \<open>the conversion of a string, an array or an object to a number\<close>
  roundDouble :: "real \<Rightarrow> num"
    \<comment> \<open>the rounding of a real number to a double\<close>
  createGeometry :: "jsval \<Rightarrow> jsval \<Rightarrow> jsval"
  GeometryType_NONE :: string
    \<comment> \<open>\<open>GeometryType.NONE\<close>, a string constant of debug-vfx\<close>
  DEFAULT_VALUES :: props

section \<open>The class VFXParticles\<close>

record vfx =
  config :: props                        \<comment> \<open>\<open>_config\<close>\<close>
  system :: "core_system option"         \<comment> \<open>\<open>_system\<close>, \<open>None\<close> for \<open>null\<close>\<close>
  emitting :: bool                       \<comment> \<open>\<open>_emitting\<close>\<close>
  emitAccumulator :: num                 \<comment> \<open>\<open>_emitAccumulator\<close>\<close>
  debug :: bool                          \<comment> \<open>\<open>_debug\<close>\<close>
  initialized :: bool                    \<comment> \<open>\<open>_initialized\<close>\<close>
  group_children :: "nat list"           \<comment> \<open>the render objects held by \<open>group\<close>\<close>
  trace :: "event list"                  \<comment> \<open>the calls made on collaborators so far\<close>

definition STRUCTURAL_KEYS :: "string list" where
  "STRUCTURAL_KEYS =
     [''maxParticles'', ''lighting'', ''appearance'', ''shadow'', ''orientToDirection'']"

definition emit :: "event \<Rightarrow> vfx \<Rightarrow> vfx" where
  "emit e st = st\<lparr>trace := trace st @ [e]\<rparr>"

definition call :: "core_system \<Rightarrow> core_call \<Rightarrow> vfx \<Rightarrow> vfx" where
  "call s c st = emit (CoreCall (sys_id s) c) st"

definition constructor :: "props \<Rightarrow> vfx" where
  \<comment> \<open>\<open>new VFXParticles(renderer, options)\<close>; \<open>options?.debug ?? false\<close>, and \<open>debug\<close> is
      deleted from the stored options\<close>
  "constructor options =
     \<lparr> config = filter (\<lambda>(k, v). k \<noteq> ''debug'') options,
       system = None,
       emitting = True,
       emitAccumulator = Fin 0,
       debug = truthy (coalesce (get_prop options ''debug'') (JBool False)),
       initialized = False,
       group_children = [],
       trace = [] \<rparr>"

definition core :: "env \<Rightarrow> core_call \<Rightarrow> vfx \<Rightarrow> vfx" where
  \<comment> \<open>a call of \<open>spawn\<close>, \<open>update\<close> or \<open>clear\<close> on \<open>this._system\<close>: the call is recorded, and
      the particles of the system become what the core makes of them\<close>
  "core e c st =
     (case system st of
        None \<Rightarrow> st
      | Some s \<Rightarrow>
          (call s c st)\<lparr>system := Some (s\<lparr>sys_particles := particles_after e c (sys_particles s)\<rparr>)\<rparr>)"

definition update :: "env \<Rightarrow> vfx \<Rightarrow> num \<Rightarrow> vfx" where
  \<comment> \<open>\<open>+=\<close>, \<open>-=\<close> and \<open>>=\<close> are the operations on doubles, \<open>!delay\<close> holds of zero and NaN\<close>
  "update e st delta =
     (case system st of
        None \<Rightarrow> st
      | Some s \<Rightarrow>
          if \<not> sys_initialized s then st
          else
            let st1 =
              (if emitting st then
                 (let delay = sys_delay s;
                      emitCount = sys_emitCount s;
                      (px, py, pz) = sys_position s
                  in if falsy_num delay then core e (CSpawn px py pz emitCount None) st
                     else
                       (let st2 = st\<lparr>emitAccumulator :=
                                        fadd (roundDouble e) (emitAccumulator st) delta\<rparr>
                        in if fge (emitAccumulator st2) delay
                           then core e (CSpawn px py pz emitCount None)
                                  (st2\<lparr>emitAccumulator :=
                                         fsub (roundDouble e) (emitAccumulator st2) delay\<rparr>)
                           else st2))
               else st)
            in core e (CUpdate delta) st1)"

definition dispose :: "vfx \<Rightarrow> vfx" where
  \<comment> \<open>\<open>group.remove(obj)\<close> of three.js takes the first occurrence of \<open>obj\<close> out of the
      children; the \<open>destroyDebugPanel()\<close> behind the dynamic import is recorded at once.
      What \<open>dispose()\<close> of the system does to the fields of the object is not in the
      sources: the call is recorded.\<close>
  "dispose st =
     (let st1 =
        (case system st of
           Some s \<Rightarrow>
             (call s CDispose (st\<lparr>group_children := remove1 (sys_id s) (group_children st)\<rparr>))
               \<lparr>system := None\<rparr>
         | None \<Rightarrow> st);
          st2 = (if debug st1 then emit DestroyDebugPanel st1 else st1)
      in st2\<lparr>initialized := False\<rparr>)"

definition spawn ::
  "env \<Rightarrow> vfx \<Rightarrow> num option \<Rightarrow> num option \<Rightarrow> num option \<Rightarrow> num option \<Rightarrow> props option
    \<Rightarrow> vfx" where
  \<comment> \<open>\<open>x\<close>, \<open>y\<close>, \<open>z\<close> default to 0; \<open>None\<close> is an argument left out\<close>
  "spawn e st x y z count overrides =
     (case system st of
        None \<Rightarrow> st
      | Some s \<Rightarrow>
          core e
            (CSpawn (case x of None \<Rightarrow> Fin 0 | Some v \<Rightarrow> v)
                    (case y of None \<Rightarrow> Fin 0 | Some v \<Rightarrow> v)
                    (case z of None \<Rightarrow> Fin 0 | Some v \<Rightarrow> v)
                    (case count of None \<Rightarrow> sys_emitCount s | Some c \<Rightarrow> c)
                    overrides)
            st)"

definition start :: "vfx \<Rightarrow> vfx" where
  "start st =
     (let st1 = st\<lparr>emitting := True, emitAccumulator := Fin 0\<rparr>
      in case system st1 of Some s \<Rightarrow> call s CStart st1 | None \<Rightarrow> st1)"

definition stop :: "vfx \<Rightarrow> vfx" where
  "stop st =
     (let st1 = st\<lparr>emitting := False\<rparr>
      in case system st1 of Some s \<Rightarrow> call s CStop st1 | None \<Rightarrow> st1)"

definition clear :: "env \<Rightarrow> vfx \<Rightarrow> vfx" where
  "clear e st = (case system st of Some s \<Rightarrow> core e CClear st | None \<Rightarrow> st)"

definition recreateSystem :: "env \<Rightarrow> vfx \<Rightarrow> vfx \<times> completion" where
  \<comment> \<open>\<open>_recreateSystem\<close>, an async method. The render object of the current system leaves the
      group and the system is disposed; then the new system is constructed and its
      \<open>init()\<close> awaited. A throw of the constructor or a rejection of \<open>init()\<close> rejects the
      promise and leaves the rest of the body undone. The body after the \<open>await\<close> is run at
      once: calls that arrive while \<open>init()\<close> is pending are not modelled.
      \<open>group.add(obj)\<close> of three.js takes \<open>obj\<close> from its parent, if it has one, and appends
      it to the children.\<close>
  "recreateSystem e st =
     (let st1 =
        (case system st of
           Some s \<Rightarrow>
             call s CDispose (st\<lparr>group_children := remove1 (sys_id s) (group_children st)\<rparr>)
         | None \<Rightarrow> st);
          st2 = emit (Construct (config st1)) st1
      in case new_system e (config st2) of
           None \<Rightarrow> (st2, Rejected)
         | Some s \<Rightarrow>
             (let st3 = call s CInit st2
              in case system_init e s of
                   None \<Rightarrow> (st3, Rejected)
                 | Some s' \<Rightarrow>
                     (st3\<lparr>system := Some s',
                          group_children := remove1 (sys_id s') (group_children st3) @ [sys_id s'],
                          emitAccumulator := Fin 0\<rparr>,
                      Resolved)))"

definition init :: "env \<Rightarrow> vfx \<Rightarrow> vfx \<times> completion" where
  \<comment> \<open>\<open>init\<close>, an async method, run to its end; the dynamic import of debug-vfx is taken to
      succeed\<close>
  "init e st =
     (if initialized st then (st, Resolved)
      else
        (let st1 = (if debug st then st\<lparr>config := spread (DEFAULT_VALUES e) (config st)\<rparr> else st)
         in case recreateSystem e st1 of
              (st2, Rejected) \<Rightarrow> (st2, Rejected)
            | (st2, Resolved) \<Rightarrow>
                (let st3 = st2\<lparr>initialized := True\<rparr>
                 in (if debug st3 then emit (RenderDebugPanel (config st3)) st3 else st3,
                     Resolved))))"

subsection \<open>What the core does with the calls of a uniform-level update\<close>

definition setPosition :: "core_system \<Rightarrow> jsval \<Rightarrow> core_system" where
  \<comment> \<open>Modelled from the spec: \<open>VFXParticleSystem.setPosition\<close> of core-vfx is not in the
      sources; the command \<open>setPosition(vec3)\<close> sets the emitter position the wrapper reads
      back. A value that is not a triple of numbers is left out.\<close>
  "setPosition s p =
     (case p of
        JArr [x, y, z] \<Rightarrow>
          (case (as_num x, as_num y, as_num z) of
             (Some a, Some b, Some c) \<Rightarrow> s\<lparr>sys_position := (a, b, c)\<rparr>
           | _ \<Rightarrow> s)
      | _ \<Rightarrow> s)"

definition setDelay :: "core_system \<Rightarrow> jsval \<Rightarrow> core_system" where
  \<comment> \<open>Modelled from the spec: \<open>VFXParticleSystem.setDelay\<close> of core-vfx is not in the
      sources; the command \<open>setDelay(seconds)\<close> sets the delay the wrapper reads back.\<close>
  "setDelay s d = (case as_num d of Some r \<Rightarrow> s\<lparr>sys_delay := r\<rparr> | None \<Rightarrow> s)"

definition setEmitCount :: "core_system \<Rightarrow> jsval \<Rightarrow> core_system" where
  \<comment> \<open>Modelled from the spec: \<open>VFXParticleSystem.setEmitCount\<close> of core-vfx is not in the
      sources; the command \<open>setEmitCount(n)\<close> sets the count the wrapper reads back.\<close>
  "setEmitCount s n = (case as_num n of Some r \<Rightarrow> s\<lparr>sys_emitCount := r\<rparr> | None \<Rightarrow> s)"

definition updateUniformsPartial :: "core_system \<Rightarrow> props \<Rightarrow> core_system" where
  \<comment> \<open>Modelled from the spec: \<open>updateUniformsPartial\<close> of core-vfx is not in the sources.
      Only its colour handling is modelled: a \<open>colorStart\<close> that is given sets the
      \<open>colorStart\<close> uniforms; a \<open>colorEnd\<close> that is given sets the \<open>colorEnd\<close> uniforms, and
      "if \<open>colorEnd\<close> is absent, \<open>colorEnd\<close> uniforms are set so the particle's
      life-interpolated color holds steady at \<open>colorStart\<close>".\<close>
  "updateUniformsPartial s vals =
     (let s1 = (if has_key vals ''colorStart'' \<and> \<not> nullish (get_prop vals ''colorStart'')
                then s\<lparr>uColorStart := get_prop vals ''colorStart''\<rparr> else s)
      in if has_key vals ''colorEnd''
         then s1\<lparr>uColorEnd :=
                   (if nullish (get_prop vals ''colorEnd'') then uColorStart s1
                    else get_prop vals ''colorEnd'')\<rparr>
         else s1)"

definition lifeColor ::
  "(jsval \<Rightarrow> real \<times> real \<times> real) \<Rightarrow> core_system \<Rightarrow> real \<Rightarrow> real \<times> real \<times> real" where
  \<comment> \<open>Modelled from the spec: the shader of core-vfx is not in the sources. The
      "life-interpolated color" of a particle at the fraction \<open>t\<close> of its lifetime, between
      the colours of the two uniforms; \<open>decode\<close> stands for the reading of a colour value
      as red, green and blue.\<close>
  "lifeColor decode s t =
     (let (r0, g0, b0) = decode (uColorStart s);
          (r1, g1, b1) = decode (uColorEnd s)
      in (r0 + (r1 - r0) * t, g0 + (g1 - g0) * t, b0 + (b1 - b0) * t))"

subsection \<open>setProps\<close>

definition on_system :: "core_call \<Rightarrow> (core_system \<Rightarrow> core_system) \<Rightarrow> vfx \<Rightarrow> vfx" where
  \<comment> \<open>a call on \<open>this._system\<close> that changes fields of the system object\<close>
  "on_system c f st =
     (case system st of None \<Rightarrow> st | Some s \<Rightarrow> (call s c st)\<lparr>system := Some (f s)\<rparr>)"

definition uniformValues :: "vfx \<Rightarrow> props \<Rightarrow> props" where
  \<comment> \<open>the \<open>colorStart\<close> to \<open>colorEnd\<close> fallback at the head of \<open>_applyUniformUpdates\<close>: the
      values handed to \<open>updateUniformsPartial\<close>\<close>
  "uniformValues st newValues =
     (let nv1 =
        (if has_key newValues ''colorStart'' \<and> truthy (get_prop newValues ''colorStart'')
            \<and> \<not> truthy (get_prop (config st) ''colorEnd'')
         then assign newValues ''colorEnd'' JNull else newValues)
      in if has_key nv1 ''colorEnd'' \<and> \<not> truthy (get_prop nv1 ''colorEnd'')
         then assign nv1 ''colorStart''
                (coalesce (get_prop nv1 ''colorStart'')
                   (coalesce (get_prop (config st) ''colorStart'') (JArr [JStr ''#ffffff''])))
         else nv1)"

definition applyUniformUpdates :: "vfx \<Rightarrow> props \<Rightarrow> vfx" where
  \<comment> \<open>\<open>_applyUniformUpdates\<close>. \<open>this._emitting = newValues.autoStart\<close> keeps the truth value of
      \<open>autoStart\<close>, which is all that \<open>if (this._emitting)\<close> reads. Modelled from the spec:
      \<open>start\<close> and \<open>stop\<close> of \<open>VFXParticleSystem\<close> are not in the sources; they switch the
      emission and leave "existing particles to complete their natural lifetime", as do
      the material's \<open>blending\<close> and the setters above, which touch no particle.\<close>
  "applyUniformUpdates st newValues0 =
     (case system st of
        None \<Rightarrow> st
      | Some s0 \<Rightarrow>
          (let newValues = uniformValues st newValues0;
               st1 = on_system (CUpdateUniformsPartial newValues)
                       (\<lambda>s. updateUniformsPartial s newValues) st;
               st2 = (if truthy (get_prop newValues ''position'')
                      then on_system (CSetPosition (get_prop newValues ''position''))
                             (\<lambda>s. setPosition s (get_prop newValues ''position'')) st1
                      else st1);
               st3 = (if has_key newValues ''delay''
                      then (let d = coalesce (get_prop newValues ''delay'') (JNum 0)
                            in on_system (CSetDelay d) (\<lambda>s. setDelay s d) st2)
                      else st2);
               st4 = (if has_key newValues ''emitCount''
                      then (let n = coalesce (get_prop newValues ''emitCount'') (JNum 1)
                            in on_system (CSetEmitCount n) (\<lambda>s. setEmitCount s n) st3)
                      else st3);
               st5 = (if get_prop newValues ''autoStart'' \<noteq> JUndefined
                      then (let st' = st4\<lparr>emitting := truthy (get_prop newValues ''autoStart'')\<rparr>
                            in if emitting st' then on_system CStart (\<lambda>s. s) st'
                               else on_system CStop (\<lambda>s. s) st')
                      else st4)
           in if sys_has_material s0 \<and> get_prop newValues ''blending'' \<noteq> JUndefined
              then on_system (CSetBlending (get_prop newValues ''blending'')) (\<lambda>s. s) st5
              else st5))"

definition oldFlag :: "vfx \<Rightarrow> (features \<Rightarrow> bool) \<Rightarrow> bool" where
  \<comment> \<open>\<open>this._system?.features.flag ?? false\<close>\<close>
  "oldFlag st flag = (case system st of None \<Rightarrow> False | Some s \<Rightarrow> flag (sys_features s))"

definition newHasTurbulence :: "env \<Rightarrow> props \<Rightarrow> bool" where
  "newHasTurbulence e newValues =
     (get_prop newValues ''turbulence'' \<noteq> JNull
      \<and> js_gt (ToNumber e) (coalesce (member_opt (get_prop newValues ''turbulence'') ''intensity'') (JNum 0)) 0)"

definition newHasAttractors :: "env \<Rightarrow> props \<Rightarrow> bool" where
  "newHasAttractors e newValues =
     (get_prop newValues ''attractors'' \<noteq> JNull
      \<and> js_gt (ToNumber e) (member_opt (get_prop newValues ''attractors'') ''length'') 0)"

definition newHasCollision :: "props \<Rightarrow> bool" where
  "newHasCollision newValues =
     (get_prop newValues ''collision'' \<noteq> JNull \<and> get_prop newValues ''collision'' \<noteq> JUndefined)"

definition newNeedsRotation :: "env \<Rightarrow> props \<Rightarrow> bool" where
  "newNeedsRotation e cfg =
     (let rot = coalesce (get_prop cfg ''rotation'') (JArr [JNum 0, JNum 0]);
          rotSpeed = coalesce (get_prop cfg ''rotationSpeed'') (JArr [JNum 0, JNum 0])
      in isNonDefaultRotation e rot \<or> isNonDefaultRotation e rotSpeed)"

definition newNeedsPerParticleColor :: "env \<Rightarrow> props \<Rightarrow> bool" where
  "newNeedsPerParticleColor e cfg =
     (let startLen = coalesce (member_opt (get_prop cfg ''colorStart'') ''length'') (JNum 1);
          hasColorEnd =
            (get_prop cfg ''colorEnd'' \<noteq> JNull \<and> get_prop cfg ''colorEnd'' \<noteq> JUndefined)
      in js_gt (ToNumber e) startLen 1 \<or> hasColorEnd)"

definition setGeometry :: "env \<Rightarrow> vfx \<Rightarrow> vfx" where
  \<comment> \<open>the body of the \<open>import('debug-vfx').then\<close> callback of \<open>setProps\<close>, before its call of
      \<open>_recreateSystem\<close>\<close>
  "setGeometry e st =
     (let geoType = get_prop (config st) ''geometryType''
      in if geoType = JStr (GeometryType_NONE e) \<or> \<not> truthy geoType
         then st\<lparr>config := assign (config st) ''geometry'' JNull\<rparr>
         else st\<lparr>config := assign (config st) ''geometry''
                              (createGeometry e geoType (get_prop (config st) ''geometryArgs''))\<rparr>)"

definition setProps_run :: "env \<Rightarrow> vfx \<Rightarrow> props \<Rightarrow> vfx \<times> completion" where
  \<comment> \<open>\<open>setProps\<close>, with the promise of the \<open>_recreateSystem\<close> it starts (which the source
      drops) followed to its end; the import of debug-vfx is taken to succeed\<close>
  "setProps_run e st newValues =
     (let st1 = st\<lparr>config := spread (config st) newValues\<rparr>;
          needsRecreate = list_ex (\<lambda>key. has_key newValues key) STRUCTURAL_KEYS
      in if has_key newValues ''turbulence''
            \<and> newHasTurbulence e newValues \<noteq> oldFlag st1 turbulence
         then recreateSystem e st1
         else if has_key newValues ''attractors''
            \<and> newHasAttractors e newValues \<noteq> oldFlag st1 attractors
         then recreateSystem e st1
         else if has_key newValues ''collision''
            \<and> newHasCollision newValues \<noteq> oldFlag st1 collision
         then recreateSystem e st1
         else if (has_key newValues ''rotation'' \<or> has_key newValues ''rotationSpeed'')
            \<and> newNeedsRotation e (config st1) \<noteq> oldFlag st1 needsRotation
         then recreateSystem e st1
         else if (has_key newValues ''colorStart'' \<or> has_key newValues ''colorEnd'')
            \<and> newNeedsPerParticleColor e (config st1) \<noteq> oldFlag st1 needsPerParticleColor
         then recreateSystem e st1
         else if has_key newValues ''geometryType'' \<or> has_key newValues ''geometryArgs''
         then recreateSystem e (setGeometry e st1)
         else if needsRecreate
         then recreateSystem e st1
         else (applyUniformUpdates st1 newValues, Resolved))"

definition setProps :: "env \<Rightarrow> vfx \<Rightarrow> props \<Rightarrow> vfx" where
  "setProps e st newValues = fst (setProps_run e st newValues)"

section \<open>Observing a run\<close>

text \<open>
  What a call did is read off the trace: the events it added, and among them the
  constructions of a system, the spawn calls and the calls of a uniform-level update.
\<close>

definition new_events :: "vfx \<Rightarrow> vfx \<Rightarrow> event list" where
  "new_events st st' = drop (length (trace st)) (trace st')"

definition extends :: "vfx \<Rightarrow> vfx \<Rightarrow> bool" where
  "extends st st' = (take (length (trace st)) (trace st') = trace st)"

fun is_spawn :: "event \<Rightarrow> bool" where
  "is_spawn (CoreCall i (CSpawn x y z n ov)) = True"
| "is_spawn ev = False"

fun is_core_call :: "event \<Rightarrow> bool" where
  "is_core_call (CoreCall i c) = True"
| "is_core_call ev = False"

fun is_construct :: "event \<Rightarrow> bool" where
  "is_construct (Construct cfg) = True"
| "is_construct ev = False"

fun is_uniform_call :: "event \<Rightarrow> bool" where
  "is_uniform_call (CoreCall i (CUpdateUniformsPartial vals)) = True"
| "is_uniform_call (CoreCall i (CSetPosition p)) = True"
| "is_uniform_call (CoreCall i (CSetDelay d)) = True"
| "is_uniform_call (CoreCall i (CSetEmitCount n)) = True"
| "is_uniform_call (CoreCall i CStart) = True"
| "is_uniform_call (CoreCall i CStop) = True"
| "is_uniform_call (CoreCall i (CSetBlending b)) = True"
| "is_uniform_call ev = False"

definition recreated :: "vfx \<Rightarrow> vfx \<Rightarrow> bool" where
  "recreated st st' = list_ex is_construct (new_events st st')"

definition same_instance :: "core_system \<Rightarrow> core_system \<Rightarrow> bool" where
  \<comment> \<open>the same system object, with every particle as it was\<close>
  "same_instance s s' =
     (sys_id s' = sys_id s \<and> sys_initialized s' = sys_initialized s
      \<and> sys_features s' = sys_features s \<and> sys_has_material s' = sys_has_material s
      \<and> sys_particles s' = sys_particles s)"

definition uniform_step :: "vfx \<Rightarrow> vfx \<Rightarrow> bool" where
  \<comment> \<open>from \<open>st\<close> to \<open>st'\<close> the system object stays, its particles are untouched, and the
      calls made are those of a uniform-level update\<close>
  "uniform_step st st' =
     (extends st st' \<and> list_all is_uniform_call (new_events st st')
      \<and> group_children st' = group_children st
      \<and> initialized st' = initialized st
      \<and> emitAccumulator st' = emitAccumulator st
      \<and> (case system st of
            None \<Rightarrow> system st' = None
          | Some s \<Rightarrow> (case system st' of None \<Rightarrow> False | Some s' \<Rightarrow> same_instance s s')))"

definition color_uniforms :: "vfx \<Rightarrow> (jsval \<times> jsval) option" where
  \<comment> \<open>the colours behind the \<open>colorStart\<close> and \<open>colorEnd\<close> uniforms of the current system\<close>
  "color_uniforms st = map_option (\<lambda>s. (uColorStart s, uColorEnd s)) (system st)"

definition dispose_events :: "vfx \<Rightarrow> event list" where
  \<comment> \<open>the disposal of the system \<open>st\<close> holds, if it holds one\<close>
  "dispose_events st =
     (case system st of None \<Rightarrow> [] | Some s \<Rightarrow> [CoreCall (sys_id s) CDispose])"

definition without_current :: "vfx \<Rightarrow> nat list" where
  \<comment> \<open>the group once the render object of the system \<open>st\<close> holds has left it\<close>
  "without_current st =
     (case system st of
        None \<Rightarrow> group_children st
      | Some s \<Rightarrow> remove1 (sys_id s) (group_children st))"

definition rebuilt :: "env \<Rightarrow> vfx \<Rightarrow> vfx \<Rightarrow> bool" where
  \<comment> \<open>from \<open>st\<close> to \<open>st'\<close> the system was disposed and rebuilt from the options of \<open>st'\<close>:
      the system of \<open>st\<close> is disposed and leaves the group, then a system is constructed
      and its \<open>init()\<close> called; when both succeed, the new system is installed, joins the
      group and the emit accumulator restarts at 0\<close>
  "rebuilt e st st' =
     (extends st st'
      \<and> (case new_system e (config st') of
            None \<Rightarrow>
              new_events st st' = dispose_events st @ [Construct (config st')]
              \<and> group_children st' = without_current st
          | Some s1 \<Rightarrow>
              new_events st st'
                = dispose_events st @ [Construct (config st'), CoreCall (sys_id s1) CInit]
              \<and> (case system_init e s1 of
                    None \<Rightarrow> group_children st' = without_current st
                  | Some s2 \<Rightarrow>
                      system st' = Some s2
                      \<and> group_children st'
                          = remove1 (sys_id s2) (without_current st) @ [sys_id s2]
                      \<and> emitAccumulator st' = Fin 0)))"

section \<open>The classification of a change\<close>

text \<open>
  The three reasons for which \<open>setProps\<close> rebuilds the system, each stated on its own:
  a structural key is given, a geometry key is given, or a feature flag derived from the
  new values differs from the flag of the running system.
\<close>

definition structuralKey :: "props \<Rightarrow> bool" where
  "structuralKey newValues =
     (has_key newValues ''maxParticles'' \<or> has_key newValues ''lighting''
      \<or> has_key newValues ''appearance'' \<or> has_key newValues ''shadow''
      \<or> has_key newValues ''orientToDirection'')"

definition geometryKey :: "props \<Rightarrow> bool" where
  "geometryKey newValues =
     (has_key newValues ''geometryType'' \<or> has_key newValues ''geometryArgs'')"

definition flagFlips :: "env \<Rightarrow> vfx \<Rightarrow> props \<Rightarrow> bool" where
  "flagFlips e st newValues =
     (let cfg = spread (config st) newValues
      in (has_key newValues ''turbulence''
            \<and> newHasTurbulence e newValues \<noteq> oldFlag st turbulence)
       \<or> (has_key newValues ''attractors''
            \<and> newHasAttractors e newValues \<noteq> oldFlag st attractors)
       \<or> (has_key newValues ''collision''
            \<and> newHasCollision newValues \<noteq> oldFlag st collision)
       \<or> ((has_key newValues ''rotation'' \<or> has_key newValues ''rotationSpeed'')
            \<and> newNeedsRotation e cfg \<noteq> oldFlag st needsRotation)
       \<or> ((has_key newValues ''colorStart'' \<or> has_key newValues ''colorEnd'')
            \<and> newNeedsPerParticleColor e cfg \<noteq> oldFlag st needsPerParticleColor))"

definition triggersRecreate :: "env \<Rightarrow> vfx \<Rightarrow> props \<Rightarrow> bool" where
  "triggersRecreate e st newValues =
     (structuralKey newValues \<or> geometryKey newValues \<or> flagFlips e st newValues)"

definition merged :: "vfx \<Rightarrow> props \<Rightarrow> vfx" where
  "merged st newValues = st\<lparr>config := spread (config st) newValues\<rparr>"

section \<open>Runs of an instance\<close>

text \<open>
  The calls a host can make on an instance, and the state after a sequence of them, each
  async method followed to its end.
\<close>

datatype command =
    Init
  | Update num
  | Dispose
  | Spawn "num option" "num option" "num option" "num option" "props option"
  | Start
  | Stop
  | Clear
  | SetProps props

fun run :: "env \<Rightarrow> vfx \<Rightarrow> command \<Rightarrow> vfx" where
  "run e st Init = fst (init e st)"
| "run e st (Update delta) = update e st delta"
| "run e st Dispose = dispose st"
| "run e st (Spawn x y z count overrides) = spawn e st x y z count overrides"
| "run e st Start = start st"
| "run e st Stop = stop st"
| "run e st Clear = clear e st"
| "run e st (SetProps newValues) = setProps e st newValues"

definition runs :: "env \<Rightarrow> vfx \<Rightarrow> command list \<Rightarrow> vfx" where
  "runs e st cs = foldl (run e) st cs"

fun restarts :: "command \<Rightarrow> bool" where
  \<comment> \<open>the calls that can switch emission on: \<open>start()\<close>, and a \<open>setProps\<close> whose \<open>autoStart\<close>
      is truthy\<close>
  "restarts Start = True"
| "restarts (SetProps newValues) = truthy (get_prop newValues ''autoStart'')"
| "restarts c = False"

definition all_initialized :: "vfx \<Rightarrow> bool" where
  \<comment> \<open>a system the instance holds reports \<open>initialized\<close>\<close>
  "all_initialized st = (case system st of None \<Rightarrow> True | Some s \<Rightarrow> sys_initialized s)"

section \<open>A running instance\<close>

text \<open>
  One system with one live particle, its options and two environments, on which the
  theorems are instantiated. In \<open>sample_env\<close> a system is built with an empty buffer and
  initialised, \<open>update\<close> ages the particles, \<open>clear\<close> removes them and \<open>spawn\<close> adds one at
  the given place; the sums of the examples are doubles, so that rounding is the identity
  on them. In \<open>failing_env\<close> the \<open>init()\<close> of a new system rejects.
\<close>

definition sample_system :: core_system where
  "sample_system =
     \<lparr> sys_id = 1, sys_initialized = True, sys_delay = Fin (1 / 2), sys_emitCount = Fin 3,
       sys_position = (Fin 0, Fin 1, Fin 0),
       sys_features = \<lparr> turbulence = False, attractors = False, collision = False,
                        needsRotation = False, needsPerParticleColor = False \<rparr>,
       sys_has_material = True,
       uColorStart = JArr [JStr ''#ffffff''], uColorEnd = JArr [JStr ''#ffffff''],
       sys_particles = [\<lparr> age = Fin (1 / 4), position = (Fin 0, Fin 2, Fin 0) \<rparr>] \<rparr>"

definition sample_state :: vfx where
  "sample_state =
     \<lparr> config = [(''maxParticles'', JNum 100), (''delay'', JNum (1 / 2)),
                 (''emitCount'', JNum 3)],
       system = Some sample_system, emitting = True, emitAccumulator = Fin 0, debug = False,
       initialized = True, group_children = [1], trace = [] \<rparr>"

definition sample_env :: env where
  "sample_env =
     \<lparr> new_system =
         (\<lambda>cfg. Some (sample_system\<lparr>sys_id := 2, sys_initialized := False,
                                     sys_particles := []\<rparr>)),
       system_init = (\<lambda>s. Some (s\<lparr>sys_initialized := True\<rparr>)),
       particles_after =
         (\<lambda>c ps. case c of
            CUpdate d \<Rightarrow> map (\<lambda>p. p\<lparr>age := fadd Fin (age p) d\<rparr>) ps
          | CSpawn x y z n ov \<Rightarrow> ps @ [\<lparr> age = Fin 0, position = (x, y, z) \<rparr>]
          | CClear \<Rightarrow> []
          | _ \<Rightarrow> ps),
       isNonDefaultRotation = (\<lambda>v. v \<noteq> JNum 0 \<and> v \<noteq> JArr [JNum 0, JNum 0]),
       ToNumber = (\<lambda>v. if v = JStr ''5'' then Fin 5 else NaN),
       roundDouble = Fin,
       createGeometry = (\<lambda>t a. JObj [(''type'', t), (''args'', a)]),
       GeometryType_NONE = ''none'',
       DEFAULT_VALUES = [(''emitCount'', JNum 1)] \<rparr>"

definition failing_env :: env where
  "failing_env = sample_env\<lparr>system_init := (\<lambda>s. None)\<rparr>"

definition uninitialized_state :: vfx where
  \<comment> \<open>an instance whose system object is there and reports \<open>initialized = false\<close>\<close>
  "uninitialized_state =
     sample_state\<lparr>system := Some (sample_system\<lparr>sys_initialized := False\<rparr>)\<rparr>"

section \<open>Lemmas on traces, on the uniform-level update and on the rebuild\<close>

lemma oldFlag_config [simp]: "oldFlag (st\<lparr>config := c\<rparr>) f = oldFlag st f"
  by (simp add: oldFlag_def)

lemma new_events_config [simp]: "new_events (st\<lparr>config := c\<rparr>) st' = new_events st st'"
  by (simp add: new_events_def)

lemma new_events_self [simp]: "new_events st st = []"
  by (simp add: new_events_def)

lemma trace_on_system:
  "trace (on_system c f st) =
     trace st @ (case system st of None \<Rightarrow> [] | Some s \<Rightarrow> [CoreCall (sys_id s) c])"
  by (simp add: on_system_def call_def emit_def split: option.splits)

lemma trace_recreateSystem:
  "\<exists>evs. trace (fst (recreateSystem e st)) = trace st @ evs \<and> list_ex is_construct evs"
  by (auto simp: recreateSystem_def call_def emit_def Let_def split: option.splits)

lemma recreated_recreateSystem: "recreated st (fst (recreateSystem e st))"
  using trace_recreateSystem [of e st] by (auto simp: recreated_def new_events_def)

lemma structuralKey_needsRecreate:
  "list_ex (\<lambda>key. has_key newValues key) STRUCTURAL_KEYS = structuralKey newValues"
  by (simp add: STRUCTURAL_KEYS_def structuralKey_def)

lemma uniform_step_refl: "uniform_step st st"
  by (simp add: uniform_step_def extends_def new_events_def same_instance_def
      split: option.splits)

lemma uniform_step_on_system:
  assumes "uniform_step st st1" and "\<And>i. is_uniform_call (CoreCall i c)"
    and "\<And>s. same_instance s (f s)"
  shows "uniform_step st (on_system c f st1)"
proof -
  from assms(1) have tr: "trace st1 = trace st @ new_events st st1"
    by (metis append_take_drop_id extends_def new_events_def uniform_step_def)
  show ?thesis
  proof (cases "system st1")
    case None
    then show ?thesis using assms(1) by (simp add: on_system_def)
  next
    case (Some s1)
    have "trace (on_system c f st1) = trace st @ (new_events st st1 @ [CoreCall (sys_id s1) c])"
      using tr Some by (simp add: trace_on_system)
    then have ev: "extends st (on_system c f st1)"
      "new_events st (on_system c f st1) = new_events st st1 @ [CoreCall (sys_id s1) c]"
      by (simp_all add: extends_def new_events_def)
    have rest: "group_children (on_system c f st1) = group_children st1"
      "initialized (on_system c f st1) = initialized st1"
      "emitAccumulator (on_system c f st1) = emitAccumulator st1"
      "system (on_system c f st1) = Some (f s1)"
      using Some by (simp_all add: on_system_def call_def emit_def)
    from assms(3) [of s1] have si: "same_instance s1 (f s1)" .
    show ?thesis
      using assms(1) assms(2) ev rest si Some
      by (auto simp: uniform_step_def same_instance_def split: option.splits)
  qed
qed

lemma uniform_step_emitting:
  "uniform_step st st1 \<Longrightarrow> uniform_step st (st1\<lparr>emitting := b\<rparr>)"
  by (simp add: uniform_step_def extends_def new_events_def split: option.splits)

lemma same_instance_setters:
  "same_instance s s" "same_instance s (updateUniformsPartial s vals)"
  "same_instance s (setPosition s p)" "same_instance s (setDelay s d)"
  "same_instance s (setEmitCount s n)"
  by (auto simp: same_instance_def updateUniformsPartial_def setPosition_def setDelay_def
      setEmitCount_def Let_def split: jsval.splits list.splits option.splits)

lemma uniform_step_applyUniformUpdates: "uniform_step st (applyUniformUpdates st newValues)"
  unfolding applyUniformUpdates_def Let_def
  by (auto split: option.splits
      intro!: uniform_step_on_system uniform_step_emitting uniform_step_refl same_instance_setters)

lemma setProps_run_uniform:
  assumes "\<not> triggersRecreate e st newValues"
  shows "setProps_run e st newValues =
           (applyUniformUpdates (merged st newValues) newValues, Resolved)"
  using assms
  by (auto simp: setProps_run_def triggersRecreate_def flagFlips_def geometryKey_def
      structuralKey_needsRecreate merged_def Let_def)

lemma setProps_run_recreate:
  assumes "triggersRecreate e st newValues"
  shows "setProps_run e st newValues = recreateSystem e (merged st newValues)
       \<or> setProps_run e st newValues = recreateSystem e (setGeometry e (merged st newValues))"
  using assms
  by (auto simp: setProps_run_def triggersRecreate_def flagFlips_def geometryKey_def
      structuralKey_needsRecreate merged_def Let_def)

lemma setGeometry_fields [simp]:
  "trace (setGeometry e st) = trace st" "system (setGeometry e st) = system st"
  "group_children (setGeometry e st) = group_children st"
  "emitAccumulator (setGeometry e st) = emitAccumulator st"
  "emitting (setGeometry e st) = emitting st"
  "initialized (setGeometry e st) = initialized st"
  by (simp_all add: setGeometry_def Let_def)

lemma merged_fields [simp]:
  "trace (merged st nv) = trace st" "system (merged st nv) = system st"
  "group_children (merged st nv) = group_children st"
  "emitAccumulator (merged st nv) = emitAccumulator st"
  "emitting (merged st nv) = emitting st"
  "initialized (merged st nv) = initialized st"
  "config (merged st nv) = spread (config st) nv"
  by (simp_all add: merged_def)

lemma new_events_cong: "trace st1 = trace st \<Longrightarrow> new_events st1 st' = new_events st st'"
  by (simp add: new_events_def)

lemma recreated_cong: "trace st1 = trace st \<Longrightarrow> recreated st1 st' = recreated st st'"
  by (simp add: recreated_def new_events_def)

lemma not_recreated_uniform_step: "uniform_step st st' \<Longrightarrow> \<not> recreated st st'"
proof -
  have "\<And>evs. list_all is_uniform_call evs \<Longrightarrow> \<not> list_ex is_construct evs"
  proof -
    fix evs show "list_all is_uniform_call evs \<Longrightarrow> \<not> list_ex is_construct evs"
      by (induction evs) (auto elim: is_construct.elims)
  qed
  then show "uniform_step st st' \<Longrightarrow> \<not> recreated st st'"
    by (simp add: uniform_step_def recreated_def)
qed

lemma uniform_step_cong:
  assumes "trace st1 = trace st" "group_children st1 = group_children st"
    "initialized st1 = initialized st" "emitAccumulator st1 = emitAccumulator st"
    "system st1 = system st"
  shows "uniform_step st1 st' = uniform_step st st'"
  using assms by (simp add: uniform_step_def extends_def new_events_def)

lemma uniform_step_setProps:
  assumes "\<not> triggersRecreate e st newValues"
  shows "uniform_step st (setProps e st newValues)"
proof -
  have "uniform_step (merged st newValues) (applyUniformUpdates (merged st newValues) newValues)"
    by (rule uniform_step_applyUniformUpdates)
  then show ?thesis
    by (simp add: setProps_def setProps_run_uniform [OF assms]
        uniform_step_cong [of "merged st newValues" st])
qed

lemma no_examined_key:
  assumes "list_all (\<lambda>k. \<not> has_key newValues k)
             (STRUCTURAL_KEYS @ [''geometryType'', ''geometryArgs'', ''turbulence'',
                ''attractors'', ''collision'', ''rotation'', ''rotationSpeed'',
                ''colorStart'', ''colorEnd''])"
  shows "\<not> triggersRecreate e st newValues"
  using assms
  by (simp add: triggersRecreate_def structuralKey_def geometryKey_def flagFlips_def
      STRUCTURAL_KEYS_def)

lemma rebuilt_recreateSystem: "rebuilt e st (fst (recreateSystem e st))"
  by (simp add: rebuilt_def recreateSystem_def extends_def new_events_def dispose_events_def
      without_current_def call_def emit_def Let_def split: option.splits)

lemma config_recreateSystem [simp]: "config (fst (recreateSystem e st)) = config st"
  by (simp add: recreateSystem_def call_def emit_def Let_def split: option.splits)

lemma rebuilt_cong:
  assumes "trace st1 = trace st" "system st1 = system st"
    "group_children st1 = group_children st"
  shows "rebuilt e st1 st' = rebuilt e st st'"
  using assms
  by (simp add: rebuilt_def extends_def new_events_def dispose_events_def without_current_def
      cong: option.case_cong)

lemma setProps_run_recreate_flag:
  assumes "flagFlips e st newValues \<or> (structuralKey newValues \<and> \<not> geometryKey newValues)"
  shows "setProps_run e st newValues = recreateSystem e (merged st newValues)"
  using assms
  by (auto simp: setProps_run_def flagFlips_def geometryKey_def
      structuralKey_needsRecreate merged_def Let_def)

lemma setProps_run_recreate_geometry:
  assumes "\<not> flagFlips e st newValues" and "geometryKey newValues"
  shows "setProps_run e st newValues = recreateSystem e (setGeometry e (merged st newValues))"
  using assms
  by (auto simp: setProps_run_def flagFlips_def geometryKey_def
      structuralKey_needsRecreate merged_def Let_def)

lemma rebuilt_setProps:
  assumes "triggersRecreate e st newValues"
  shows "rebuilt e st (setProps e st newValues)"
proof -
  from setProps_run_recreate [OF assms]
  show ?thesis
  proof
    assume "setProps_run e st newValues = recreateSystem e (merged st newValues)"
    then show ?thesis
      using rebuilt_recreateSystem [of e "merged st newValues"]
      by (simp add: setProps_def rebuilt_cong [of "merged st newValues" st])
  next
    assume "setProps_run e st newValues = recreateSystem e (setGeometry e (merged st newValues))"
    then show ?thesis
      using rebuilt_recreateSystem [of e "setGeometry e (merged st newValues)"]
      by (simp add: setProps_def rebuilt_cong [of "setGeometry e (merged st newValues)" st])
  qed
qed

lemma recreated_setProps:
  assumes "triggersRecreate e st newValues"
  shows "recreated st (setProps e st newValues)"
proof -
  from setProps_run_recreate [OF assms]
  show ?thesis
  proof
    assume "setProps_run e st newValues = recreateSystem e (merged st newValues)"
    then show ?thesis
      using recreated_recreateSystem [of "merged st newValues" e]
      by (simp add: setProps_def recreated_cong [of "merged st newValues" st])
  next
    assume "setProps_run e st newValues = recreateSystem e (setGeometry e (merged st newValues))"
    then show ?thesis
      using recreated_recreateSystem [of "setGeometry e (merged st newValues)" e]
      by (simp add: setProps_def recreated_cong [of "setGeometry e (merged st newValues)" st])
  qed
qed

lemma not_recreated_setProps:
  assumes "\<not> triggersRecreate e st newValues"
  shows "\<not> recreated st (setProps e st newValues)"
  using not_recreated_uniform_step [OF uniform_step_setProps [OF assms]] .

subsection \<open>The outcome of a recreation\<close>

lemma recreateSystem_outcome:
  "(snd (recreateSystem e st) = Rejected)
     = (case new_system e (config st) of None \<Rightarrow> True | Some s1 \<Rightarrow> system_init e s1 = None)"
  by (simp add: recreateSystem_def call_def emit_def Let_def split: option.splits)

lemma recreateSystem_rejected:
  assumes "snd (recreateSystem e st) = Rejected"
  shows "group_children (fst (recreateSystem e st)) = without_current st"
    "emitAccumulator (fst (recreateSystem e st)) = emitAccumulator st"
  using assms
  by (auto simp: recreateSystem_def without_current_def call_def emit_def Let_def
      split: option.splits)

lemma recreateSystem_first_events:
  assumes "system st = Some s"
  shows "take 2 (new_events st (fst (recreateSystem e st)))
       = [CoreCall (sys_id s) CDispose, Construct (config st)]"
  using assms
  by (auto simp: recreateSystem_def call_def emit_def new_events_def Let_def
      split: option.splits)

subsection \<open>Calls passed on to the core\<close>

lemma core_fields [simp]:
  "emitting (core e c st) = emitting st" "emitAccumulator (core e c st) = emitAccumulator st"
  "initialized (core e c st) = initialized st" "debug (core e c st) = debug st"
  "config (core e c st) = config st" "group_children (core e c st) = group_children st"
  by (simp_all add: core_def call_def emit_def split: option.splits)

lemma core_system:
  "system (core e c st)
     = map_option (\<lambda>s. s\<lparr>sys_particles := particles_after e c (sys_particles s)\<rparr>) (system st)"
  by (simp add: core_def call_def emit_def split: option.splits)

lemma trace_core:
  "trace (core e c st)
     = trace st @ (case system st of None \<Rightarrow> [] | Some s \<Rightarrow> [CoreCall (sys_id s) c])"
  by (simp add: core_def call_def emit_def split: option.splits)

lemma all_initialized_core: "all_initialized (core e c st) = all_initialized st"
  by (simp add: all_initialized_def core_system split: option.splits)

lemma all_initialized_acc [simp]:
  "all_initialized (st\<lparr>emitAccumulator := a\<rparr>) = all_initialized st"
  by (simp add: all_initialized_def)

lemma all_initialized_update: "all_initialized st \<Longrightarrow> all_initialized (update e st delta)"
  by (simp add: update_def Let_def all_initialized_core split: option.splits prod.splits)

lemma all_initialized_recreateSystem:
  assumes "\<And>s s'. system_init e s = Some s' \<Longrightarrow> sys_initialized s'"
    and "all_initialized st"
  shows "all_initialized (fst (recreateSystem e st))"
  using assms
  by (auto simp: recreateSystem_def all_initialized_def call_def emit_def Let_def
      split: option.splits)

lemma all_initialized_cong: "system st1 = system st \<Longrightarrow> all_initialized st1 = all_initialized st"
  by (simp add: all_initialized_def)

lemma all_initialized_init:
  assumes "\<And>s s'. system_init e s = Some s' \<Longrightarrow> sys_initialized s'"
    and "all_initialized st"
  shows "all_initialized (fst (init e st))"
proof (cases "initialized st")
  case True
  then show ?thesis using assms(2) by (simp add: init_def)
next
  case False
  let ?st1 = "if debug st then st\<lparr>config := spread (DEFAULT_VALUES e) (config st)\<rparr> else st"
  have "all_initialized ?st1" using assms(2) by (simp add: all_initialized_def)
  then have r: "all_initialized (fst (recreateSystem e ?st1))"
    using assms(1) by (rule all_initialized_recreateSystem [rotated])
  obtain st2 c where rs: "recreateSystem e ?st1 = (st2, c)" by (cases "recreateSystem e ?st1")
  with r have "all_initialized st2" by simp
  then show ?thesis
    using False rs
    by (cases c) (simp_all add: init_def Let_def all_initialized_def emit_def)
qed

lemma all_initialized_uniform_step:
  "uniform_step st st' \<Longrightarrow> all_initialized st \<Longrightarrow> all_initialized st'"
  by (auto simp: uniform_step_def all_initialized_def same_instance_def split: option.splits)

lemma all_initialized_setProps:
  assumes "\<And>s s'. system_init e s = Some s' \<Longrightarrow> sys_initialized s'"
    and "all_initialized st"
  shows "all_initialized (setProps e st newValues)"
proof (cases "triggersRecreate e st newValues")
  case True
  from setProps_run_recreate [OF True]
  show ?thesis
  proof
    assume "setProps_run e st newValues = recreateSystem e (merged st newValues)"
    moreover have "all_initialized (merged st newValues)"
      using assms(2) by (simp add: all_initialized_def)
    ultimately show ?thesis
      using all_initialized_recreateSystem [of e "merged st newValues"] assms(1)
      by (simp add: setProps_def)
  next
    assume "setProps_run e st newValues = recreateSystem e (setGeometry e (merged st newValues))"
    moreover have "all_initialized (setGeometry e (merged st newValues))"
      using assms(2) by (simp add: all_initialized_def)
    ultimately show ?thesis
      using all_initialized_recreateSystem [of e "setGeometry e (merged st newValues)"] assms(1)
      by (simp add: setProps_def)
  qed
next
  case False
  from uniform_step_setProps [OF False] assms(2) show ?thesis
    by (rule all_initialized_uniform_step)
qed

lemma all_initialized_run:
  assumes "\<And>s s'. system_init e s = Some s' \<Longrightarrow> sys_initialized s'"
    and "all_initialized st"
  shows "all_initialized (run e st c)"
proof (cases c)
  case Init
  then show ?thesis using all_initialized_init [OF assms] by simp
next
  case (Update d)
  then show ?thesis using all_initialized_update [OF assms(2)] by simp
next
  case Dispose
  then show ?thesis
    by (simp add: dispose_def all_initialized_def call_def emit_def Let_def split: option.splits)
next
  case (Spawn x y z n ov)
  then show ?thesis
    using assms(2) by (simp add: spawn_def all_initialized_core split: option.splits)
next
  case Start
  then show ?thesis
    using assms(2) by (simp add: start_def all_initialized_def call_def emit_def Let_def
        split: option.splits)
next
  case Stop
  then show ?thesis
    using assms(2) by (simp add: stop_def all_initialized_def call_def emit_def Let_def
        split: option.splits)
next
  case Clear
  then show ?thesis
    using assms(2) by (simp add: clear_def all_initialized_core split: option.splits)
next
  case (SetProps nv)
  then show ?thesis using all_initialized_setProps [OF assms] by simp
qed

lemma all_initialized_runs:
  assumes "\<And>s s'. system_init e s = Some s' \<Longrightarrow> sys_initialized s'"
    and "all_initialized st"
  shows "all_initialized (runs e st cs)"
  using assms(2)
proof (induction cs arbitrary: st)
  case Nil
  then show ?case by (simp add: runs_def)
next
  case (Cons c cs)
  have "all_initialized (run e st c)"
    using assms(1) Cons.prems by (rule all_initialized_run)
  then have "all_initialized (runs e (run e st c) cs)" by (rule Cons.IH)
  then show ?case by (simp add: runs_def)
qed

subsection \<open>Emission stays off\<close>

lemma emitting_update [simp]: "emitting (update e st delta) = emitting st"
  by (simp add: update_def Let_def split: option.splits prod.splits)

lemma emitting_recreateSystem [simp]: "emitting (fst (recreateSystem e st)) = emitting st"
  by (simp add: recreateSystem_def call_def emit_def Let_def split: option.splits)

lemma emitting_init [simp]: "emitting (fst (init e st)) = emitting st"
proof (cases "initialized st")
  case True
  then show ?thesis by (simp add: init_def)
next
  case False
  let ?st1 = "if debug st then st\<lparr>config := spread (DEFAULT_VALUES e) (config st)\<rparr> else st"
  obtain st2 c where rs: "recreateSystem e ?st1 = (st2, c)" by (cases "recreateSystem e ?st1")
  have "emitting (fst (recreateSystem e ?st1)) = emitting ?st1" by simp
  with rs have "emitting st2 = emitting st" by simp
  then show ?thesis
    using False rs by (cases c) (simp_all add: init_def Let_def emit_def)
qed

lemma emitting_on_system [simp]: "emitting (on_system c f st) = emitting st"
  by (simp add: on_system_def call_def emit_def split: option.splits)

lemma get_prop_uniformValues:
  "key \<noteq> ''colorEnd'' \<Longrightarrow> key \<noteq> ''colorStart''
    \<Longrightarrow> get_prop (uniformValues st newValues) key = get_prop newValues key"
  by (simp add: uniformValues_def assign_def get_prop_def Let_def)

lemma emitting_applyUniformUpdates:
  assumes "\<not> truthy (get_prop newValues ''autoStart'')" and "\<not> emitting st"
  shows "\<not> emitting (applyUniformUpdates st newValues)"
proof -
  have a: "get_prop (uniformValues st newValues) ''autoStart'' = get_prop newValues ''autoStart''"
    by (simp add: get_prop_uniformValues)
  show ?thesis
    using assms by (simp add: applyUniformUpdates_def Let_def a split: option.splits)
qed

lemma emitting_setProps:
  assumes "\<not> truthy (get_prop newValues ''autoStart'')" and "\<not> emitting st"
  shows "\<not> emitting (setProps e st newValues)"
proof (cases "triggersRecreate e st newValues")
  case True
  from setProps_run_recreate [OF True] assms(2) show ?thesis
    by (auto simp: setProps_def)
next
  case False
  have "\<not> emitting (applyUniformUpdates (merged st newValues) newValues)"
    using assms by (intro emitting_applyUniformUpdates) simp_all
  then show ?thesis
    by (simp add: setProps_def setProps_run_uniform [OF False])
qed

lemma emitting_run:
  assumes "\<not> restarts c" and "\<not> emitting st"
  shows "\<not> emitting (run e st c)"
proof (cases c)
  case (SetProps nv)
  then show ?thesis using assms emitting_setProps [of nv st e] by simp
next
  case Start
  then show ?thesis using assms by simp
qed (use assms in \<open>simp_all add: dispose_def spawn_def stop_def clear_def call_def emit_def
      Let_def split: option.splits\<close>)

lemma emitting_runs:
  assumes "list_all (\<lambda>c. \<not> restarts c) cs" and "\<not> emitting st"
  shows "\<not> emitting (runs e st cs)"
  using assms
proof (induction cs arbitrary: st)
  case Nil
  then show ?case by (simp add: runs_def)
next
  case (Cons c cs)
  then have "\<not> emitting (run e st c)" by (simp add: emitting_run)
  with Cons have "\<not> emitting (runs e (run e st c) cs)" by simp
  then show ?case by (simp add: runs_def)
qed

lemma update_not_emitting:
  assumes "\<not> emitting st"
  shows "update e st delta =
          (case system st of
             None \<Rightarrow> st
           | Some s \<Rightarrow> if sys_initialized s then core e (CUpdate delta) st else st)"
  using assms by (simp add: update_def split: option.splits)

subsection \<open>Disposal\<close>

lemma dispose_no_system:
  assumes "system st = None"
  shows "dispose st = (if debug st then emit DestroyDebugPanel st else st)\<lparr>initialized := False\<rparr>"
  using assms by (simp add: dispose_def)

lemma dispose_fields:
  "system (dispose st) = None" "\<not> initialized (dispose st)" "debug (dispose st) = debug st"
  by (simp_all add: dispose_def call_def emit_def Let_def split: option.splits)

lemma dispose_again:
  assumes "system st = None"
  shows "system (dispose st) = None" "\<not> initialized (dispose st)"
    "group_children (dispose st) = group_children st"
    "filter is_core_call (trace (dispose st)) = filter is_core_call (trace st)"
    "config (dispose st) = config st" "emitting (dispose st) = emitting st"
    "emitAccumulator (dispose st) = emitAccumulator st"
  using assms by (simp_all add: dispose_def emit_def)

lemma dispose_funpow:
  "system ((dispose ^^ n) (dispose st)) = None
   \<and> \<not> initialized ((dispose ^^ n) (dispose st))
   \<and> group_children ((dispose ^^ n) (dispose st)) = group_children (dispose st)
   \<and> filter is_core_call (trace ((dispose ^^ n) (dispose st)))
       = filter is_core_call (trace (dispose st))"
proof (induction n)
  case 0
  show ?case by (simp add: dispose_fields)
next
  case (Suc n)
  then show ?case by (simp add: dispose_again)
qed

subsection \<open>The colour fallback\<close>

lemma color_uniforms_on_system:
  assumes "\<And>s. uColorStart (f s) = uColorStart s \<and> uColorEnd (f s) = uColorEnd s"
  shows "color_uniforms (on_system c f st) = color_uniforms st"
  using assms by (simp add: color_uniforms_def on_system_def call_def emit_def split: option.splits)

lemma setters_keep_colors:
  "uColorStart (setPosition s p) = uColorStart s \<and> uColorEnd (setPosition s p) = uColorEnd s"
  "uColorStart (setDelay s d) = uColorStart s \<and> uColorEnd (setDelay s d) = uColorEnd s"
  "uColorStart (setEmitCount s n) = uColorStart s \<and> uColorEnd (setEmitCount s n) = uColorEnd s"
  by (auto simp: setPosition_def setDelay_def setEmitCount_def
      split: jsval.splits list.splits option.splits)

lemma color_uniforms_emitting [simp]:
  "color_uniforms (st\<lparr>emitting := b\<rparr>) = color_uniforms st"
  by (simp add: color_uniforms_def)

lemma color_uniforms_applyUniformUpdates:
  assumes "system st = Some s"
  shows "color_uniforms (applyUniformUpdates st newValues)
       = Some (uColorStart (updateUniformsPartial s (uniformValues st newValues)),
               uColorEnd (updateUniformsPartial s (uniformValues st newValues)))"
proof -
  have first: "color_uniforms
      (on_system (CUpdateUniformsPartial (uniformValues st newValues))
         (\<lambda>s. updateUniformsPartial s (uniformValues st newValues)) st)
       = Some (uColorStart (updateUniformsPartial s (uniformValues st newValues)),
               uColorEnd (updateUniformsPartial s (uniformValues st newValues)))"
    using assms by (simp add: color_uniforms_def on_system_def call_def emit_def)
  show ?thesis
    using assms first
    by (simp add: applyUniformUpdates_def Let_def color_uniforms_on_system setters_keep_colors)
qed

lemma uniformValues_colorStart:
  assumes "has_key newValues ''colorStart''" and "truthy (get_prop newValues ''colorStart'')"
    and "nullish (get_prop (config st) ''colorEnd'')"
  shows "uniformValues st newValues =
           assign (assign newValues ''colorEnd'' JNull) ''colorStart''
             (get_prop newValues ''colorStart'')"
proof -
  have nt: "\<not> truthy (get_prop (config st) ''colorEnd'')"
    using assms(3) by (auto simp: nullish_def)
  have nn: "\<not> nullish (get_prop newValues ''colorStart'')"
    using assms(2) by (auto simp: nullish_def)
  show ?thesis
    using assms(1,2) nt nn
    by (simp add: uniformValues_def assign_def has_key_def get_prop_def coalesce_def Let_def)
qed

subsection \<open>Initialisation\<close>

lemma recreateSystem_resolved:
  assumes "snd (recreateSystem e st) = Resolved"
  shows "system (fst (recreateSystem e st)) \<noteq> None"
    "initialized (fst (recreateSystem e st)) = initialized st"
    "debug (fst (recreateSystem e st)) = debug st"
  using assms
  by (auto simp: recreateSystem_def call_def emit_def Let_def split: option.splits)

lemma init_first:
  assumes "\<not> initialized st" and "snd (init e st) = Resolved"
  shows "initialized (fst (init e st))" "system (fst (init e st)) \<noteq> None"
    "recreated st (fst (init e st))"
proof -
  let ?st1 = "if debug st then st\<lparr>config := spread (DEFAULT_VALUES e) (config st)\<rparr> else st"
  obtain st2 r where rs: "recreateSystem e ?st1 = (st2, r)" by (cases "recreateSystem e ?st1")
  have r: "r = Resolved"
    using assms rs by (cases r) (simp_all add: init_def Let_def)
  have st2: "system st2 \<noteq> None"
    using recreateSystem_resolved(1) [of e ?st1] rs r by simp
  have tr: "trace ?st1 = trace st" by simp
  have rc: "recreated ?st1 st2"
    using recreated_recreateSystem [of ?st1 e] rs by simp
  have "\<exists>evs. trace (fst (init e st)) = trace st2 @ evs"
    using assms(1) rs r by (simp add: init_def Let_def emit_def)
  then obtain evs where evs: "trace (fst (init e st)) = trace st2 @ evs" by blast
  obtain evs2 where evs2: "trace st2 = trace st @ evs2" "list_ex is_construct evs2"
    using trace_recreateSystem [of e ?st1] rs by auto
  show "initialized (fst (init e st))"
    using assms(1) rs r by (simp add: init_def Let_def emit_def)
  show "system (fst (init e st)) \<noteq> None"
    using assms(1) rs r st2 by (simp add: init_def Let_def emit_def)
  show "recreated st (fst (init e st))"
    using evs evs2 by (auto simp: recreated_def new_events_def list_ex_iff)
qed

lemma init_initialized: "initialized st \<Longrightarrow> init e st = (st, Resolved)"
  by (simp add: init_def)

lemma init_resolved_initialized:
  "snd (init e st) = Resolved \<Longrightarrow> initialized (fst (init e st))"
  by (cases "initialized st") (simp_all add: init_initialized init_first(1))

subsection \<open>The empty update\<close>

lemma setProps_empty:
  "setProps e st [] =
     (case system st of None \<Rightarrow> st
      | Some s \<Rightarrow> st\<lparr>trace := trace st @ [CoreCall (sys_id s) (CUpdateUniformsPartial [])]\<rparr>)"
  by (simp add: setProps_def setProps_run_def applyUniformUpdates_def uniformValues_def
      on_system_def updateUniformsPartial_def has_key_def get_prop_def STRUCTURAL_KEYS_def
      spread_def call_def emit_def Let_def split: option.splits)

section \<open>The claims\<close>

text \<open>
  C1. A call \<open>setProps(newValues)\<close> recreates the system if and only if \<open>newValues\<close> holds a
  structural key, or a geometry key, or makes a derived feature flag differ from the flag
  of the running system. A recreation disposes the running system, takes its render
  object out of the group, constructs a system from the merged options and calls its
  \<open>init()\<close>; when both succeed the new system is installed, joins the group and the emit
  accumulator restarts. Any other \<open>newValues\<close> is applied by \<open>_applyUniformUpdates\<close> alone,
  which constructs nothing.
\<close>

theorem setProps_recreates_iff:
  "(recreated st (setProps e st newValues)
      \<longleftrightarrow> structuralKey newValues \<or> geometryKey newValues \<or> flagFlips e st newValues)
   \<and> (structuralKey newValues \<or> geometryKey newValues \<or> flagFlips e st newValues
        \<longrightarrow> rebuilt e st (setProps e st newValues)
            \<and> config (setProps e st newValues)
                = (if geometryKey newValues \<and> \<not> flagFlips e st newValues
                   then config (setGeometry e (st\<lparr>config := spread (config st) newValues\<rparr>))
                   else spread (config st) newValues))
   \<and> (\<not> (structuralKey newValues \<or> geometryKey newValues \<or> flagFlips e st newValues)
        \<longrightarrow> setProps e st newValues
              = applyUniformUpdates (st\<lparr>config := spread (config st) newValues\<rparr>) newValues)"
proof (cases "triggersRecreate e st newValues")
  case True
  have cfg: "config (setProps e st newValues)
                = (if geometryKey newValues \<and> \<not> flagFlips e st newValues
                   then config (setGeometry e (merged st newValues))
                   else spread (config st) newValues)"
  proof (cases "geometryKey newValues \<and> \<not> flagFlips e st newValues")
    case True
    then show ?thesis
      by (simp add: setProps_def setProps_run_recreate_geometry)
  next
    case False
    with \<open>triggersRecreate e st newValues\<close>
    have "flagFlips e st newValues \<or> (structuralKey newValues \<and> \<not> geometryKey newValues)"
      by (auto simp: triggersRecreate_def)
    then have "setProps_run e st newValues = recreateSystem e (merged st newValues)"
      by (rule setProps_run_recreate_flag)
    then show ?thesis
      using False by (auto simp: setProps_def)
  qed
  show ?thesis
    using True recreated_setProps [OF True] rebuilt_setProps [OF True] cfg
    by (simp add: triggersRecreate_def merged_def)
next
  case False
  have eq: "setProps e st newValues = applyUniformUpdates (merged st newValues) newValues"
    by (simp add: setProps_def setProps_run_uniform [OF False])
  show ?thesis
    using False eq not_recreated_setProps [OF False]
    by (simp add: triggersRecreate_def merged_def)
qed

theorem setProps_recreates_iff_witness:
  "new_events sample_state (setProps sample_env sample_state [(''maxParticles'', JNum 200)])
     = [CoreCall 1 CDispose,
        Construct [(''maxParticles'', JNum 200), (''maxParticles'', JNum 100),
                   (''delay'', JNum (1 / 2)), (''emitCount'', JNum 3)],
        CoreCall 2 CInit]
   \<and> map_option sys_id (system (setProps sample_env sample_state [(''maxParticles'', JNum 200)]))
     = Some 2
   \<and> group_children (setProps sample_env sample_state [(''maxParticles'', JNum 200)]) = [2]
   \<and> emitAccumulator (setProps sample_env sample_state [(''maxParticles'', JNum 200)]) = Fin 0
   \<and> recreated sample_state
        (setProps sample_env sample_state [(''turbulence'', JObj [(''intensity'', JStr ''5'')])])
   \<and> \<not> recreated sample_state
         (setProps sample_env sample_state [(''gravity'', JArr [JNum 0, JNum (- 1), JNum 0])])"
proof -
  let ?a = "[(''maxParticles'', JNum 200)]"
  let ?t = "[(''turbulence'', JObj [(''intensity'', JStr ''5'')])]"
  let ?g = "[(''gravity'', JArr [JNum 0, JNum (- 1), JNum 0])]"
  have a: "structuralKey ?a" "\<not> geometryKey ?a"
    by (simp_all add: structuralKey_def geometryKey_def has_key_def)
  have t: "flagFlips sample_env sample_state ?t"
    by (simp add: flagFlips_def has_key_def newHasTurbulence_def get_prop_def member_opt.simps
        coalesce_def nullish_def js_gt_def fgt_def oldFlag_def sample_state_def
        sample_system_def sample_env_def)
  have g: "\<not> (structuralKey ?g \<or> geometryKey ?g \<or> flagFlips sample_env sample_state ?g)"
    by (simp add: structuralKey_def geometryKey_def flagFlips_def has_key_def)
  have v: "\<And>cfg. new_system sample_env cfg
             = Some (sample_system\<lparr>sys_id := 2, sys_initialized := False, sys_particles := []\<rparr>)"
    "system_init sample_env
        (sample_system\<lparr>sys_id := 2, sys_initialized := False, sys_particles := []\<rparr>)
       = Some (sample_system\<lparr>sys_id := 2, sys_initialized := True, sys_particles := []\<rparr>)"
    "dispose_events sample_state = [CoreCall 1 CDispose]"
    "without_current sample_state = []"
    "spread (config sample_state) ?a
       = [(''maxParticles'', JNum 200), (''maxParticles'', JNum 100),
          (''delay'', JNum (1 / 2)), (''emitCount'', JNum 3)]"
    by (simp_all add: sample_env_def sample_state_def sample_system_def dispose_events_def
        without_current_def spread_def)
  from setProps_recreates_iff [of sample_state sample_env ?a] a
  have r: "rebuilt sample_env sample_state (setProps sample_env sample_state ?a)"
    and c: "config (setProps sample_env sample_state ?a) = spread (config sample_state) ?a"
    by simp_all
  from r have main: "new_events sample_state (setProps sample_env sample_state ?a)
     = [CoreCall 1 CDispose,
        Construct [(''maxParticles'', JNum 200), (''maxParticles'', JNum 100),
                   (''delay'', JNum (1 / 2)), (''emitCount'', JNum 3)],
        CoreCall 2 CInit]
    \<and> map_option sys_id (system (setProps sample_env sample_state ?a)) = Some 2
    \<and> group_children (setProps sample_env sample_state ?a) = [2]
    \<and> emitAccumulator (setProps sample_env sample_state ?a) = Fin 0"
    unfolding rebuilt_def c by (simp add: v)
  have r2: "recreated sample_state (setProps sample_env sample_state ?t)"
    using t setProps_recreates_iff [of sample_state sample_env ?t] by blast
  have r3: "\<not> recreated sample_state (setProps sample_env sample_state ?g)"
    using g setProps_recreates_iff [of sample_state sample_env ?g] by blast
  show ?thesis
    using main r2 r3 by blast
qed




text \<open>
  C3 (corrected). A change is a uniform-level step (the system object stays, with every
  particle as it was, the group and the emit accumulator stay, and the only calls made are
  those of a uniform-level update) exactly when \<open>setProps\<close> finds no structural key, no
  geometry key and no feature flag that flips. A change that touches none of the keys
  \<open>setProps\<close> examines, such as a curve, a gravity or an emitter parameter, is always such
  a step.
\<close>

theorem uniform_update_keeps_particles:
  "(uniform_step st (setProps e st newValues)
      \<longleftrightarrow> \<not> (structuralKey newValues \<or> geometryKey newValues \<or> flagFlips e st newValues))
   \<and> (list_all (\<lambda>k. \<not> has_key newValues k)
         (STRUCTURAL_KEYS @ [''geometryType'', ''geometryArgs'', ''turbulence'',
            ''attractors'', ''collision'', ''rotation'', ''rotationSpeed'',
            ''colorStart'', ''colorEnd''])
      \<longrightarrow> uniform_step st (setProps e st newValues))"
proof -
  have a: "\<not> triggersRecreate e st newValues \<Longrightarrow> uniform_step st (setProps e st newValues)"
    by (rule uniform_step_setProps)
  have b: "triggersRecreate e st newValues \<Longrightarrow> \<not> uniform_step st (setProps e st newValues)"
    using recreated_setProps [of e st newValues] not_recreated_uniform_step by blast
  show ?thesis
    using a b no_examined_key [of newValues e st]
    by (auto simp: triggersRecreate_def)
qed

theorem uniform_update_keeps_particles_witness:
  "uniform_step sample_state
        (setProps sample_env sample_state
           [(''fadeSizeCurve'', JStr ''easeOut''), (''emitterRadius'', JNum 2)])
   \<and> map_option sys_particles (system (setProps sample_env sample_state
           [(''fadeSizeCurve'', JStr ''easeOut''), (''emitterRadius'', JNum 2)]))
       = Some [\<lparr> age = Fin (1 / 4), position = (Fin 0, Fin 2, Fin 0) \<rparr>]"
proof -
  let ?c = "[(''fadeSizeCurve'', JStr ''easeOut''), (''emitterRadius'', JNum 2)]"
  have a: "list_all (\<lambda>k. \<not> has_key ?c k)
         (STRUCTURAL_KEYS @ [''geometryType'', ''geometryArgs'', ''turbulence'',
            ''attractors'', ''collision'', ''rotation'', ''rotationSpeed'',
            ''colorStart'', ''colorEnd''])"
    by (simp add: STRUCTURAL_KEYS_def has_key_def)
  have u: "uniform_step sample_state (setProps sample_env sample_state ?c)"
    using a uniform_update_keeps_particles [of sample_state sample_env ?c] by blast
  have p: "map_option sys_particles (system sample_state)
             = Some [\<lparr> age = Fin (1 / 4), position = (Fin 0, Fin 2, Fin 0) \<rparr>]"
    by (simp add: sample_state_def sample_system_def)
  from u p show ?thesis
    by (auto simp: uniform_step_def same_instance_def split: option.splits)
qed

text \<open>
  The claim as stated fails for a colour: giving a \<open>colorEnd\<close> to a system that had none
  flips \<open>needsPerParticleColor\<close>; the system is disposed and a new one, with no particle
  of the old, takes its place.
\<close>

theorem color_switch_counterexample:
  "map_option sys_particles (system sample_state)
     = Some [\<lparr> age = Fin (1 / 4), position = (Fin 0, Fin 2, Fin 0) \<rparr>]
   \<and> map_option sys_particles
       (system (setProps sample_env sample_state [(''colorEnd'', JArr [JStr ''#0000ff''])]))
     = Some []
   \<and> new_events sample_state
       (setProps sample_env sample_state [(''colorEnd'', JArr [JStr ''#0000ff''])])
     = [CoreCall 1 CDispose,
        Construct [(''colorEnd'', JArr [JStr ''#0000ff'']), (''maxParticles'', JNum 100),
                   (''delay'', JNum (1 / 2)), (''emitCount'', JNum 3)],
        CoreCall 2 CInit]"
  by (simp add: setProps_def setProps_run_def recreateSystem_def sample_env_def
      sample_state_def sample_system_def has_key_def get_prop_def STRUCTURAL_KEYS_def spread_def
      newNeedsPerParticleColor_def oldFlag_def member_opt.simps coalesce_def nullish_def
      js_gt_def fgt_def call_def emit_def new_events_def Let_def)

text \<open>
  C4 (defect of the code). Reapplying a structural value that is already in effect
  recreates the system: \<open>setProps\<close> tests that the key is given, not that its value
  changes. Here \<open>maxParticles\<close> is 100 and is set to 100 again.
\<close>

theorem same_structural_value_recreates:
  "get_prop (config sample_state) ''maxParticles'' = JNum 100
   \<and> new_events sample_state (setProps sample_env sample_state [(''maxParticles'', JNum 100)])
       = [CoreCall 1 CDispose,
          Construct [(''maxParticles'', JNum 100), (''maxParticles'', JNum 100),
                     (''delay'', JNum (1 / 2)), (''emitCount'', JNum 3)],
          CoreCall 2 CInit]
   \<and> map_option sys_id (system (setProps sample_env sample_state [(''maxParticles'', JNum 100)]))
       = Some 2"
  by (simp add: setProps_def setProps_run_def recreateSystem_def sample_env_def
      sample_state_def sample_system_def has_key_def get_prop_def STRUCTURAL_KEYS_def spread_def
      call_def emit_def new_events_def Let_def)



text \<open>
  C6 (corrected). After \<open>stop()\<close>, through any sequence of calls that holds no \<open>start()\<close>
  and no \<open>setProps\<close> with a truthy \<open>autoStart\<close>, \<open>isEmitting\<close> stays false; an \<open>update(delta)\<close>
  then spawns nothing, and where the system is there and initialised it is passed on to
  the \<open>update\<close> of the system, which advances the particles.
\<close>

theorem stop_halts_emission:
  assumes "list_all (\<lambda>c. \<not> restarts c) cs"
  shows "\<not> emitting (runs e (stop st) cs)
       \<and> new_events (runs e (stop st) cs) (update e (runs e (stop st) cs) delta)
           = (case system (runs e (stop st) cs) of
                None \<Rightarrow> []
              | Some s \<Rightarrow> if sys_initialized s then [CoreCall (sys_id s) (CUpdate delta)] else [])
       \<and> \<not> list_ex is_spawn
             (new_events (runs e (stop st) cs) (update e (runs e (stop st) cs) delta))
       \<and> map_option sys_particles (system (update e (runs e (stop st) cs) delta))
           = map_option
               (\<lambda>s. if sys_initialized s
                    then particles_after e (CUpdate delta) (sys_particles s)
                    else sys_particles s)
               (system (runs e (stop st) cs))"
proof -
  let ?st1 = "runs e (stop st) cs"
  have "\<not> emitting (stop st)"
    by (simp add: stop_def call_def emit_def Let_def split: option.splits)
  with assms have ne: "\<not> emitting ?st1" by (rule emitting_runs)
  have ev: "new_events ?st1 (update e ?st1 delta)
           = (case system ?st1 of
                None \<Rightarrow> []
              | Some s \<Rightarrow> if sys_initialized s then [CoreCall (sys_id s) (CUpdate delta)] else [])"
    by (simp add: update_not_emitting [OF ne] new_events_def trace_core split: option.splits)
  have ns: "\<not> list_ex is_spawn (new_events ?st1 (update e ?st1 delta))"
    by (simp add: ev split: option.splits)
  have pa: "map_option sys_particles (system (update e ?st1 delta))
           = map_option
               (\<lambda>s. if sys_initialized s
                    then particles_after e (CUpdate delta) (sys_particles s)
                    else sys_particles s)
               (system ?st1)"
    by (simp add: update_not_emitting [OF ne] core_system split: option.splits)
  show ?thesis using ne ev ns pa by blast
qed

theorem stop_halts_emission_witness:
  "new_events (runs sample_env (stop sample_state) [Update (Fin (3 / 4)), Clear])
      (update sample_env
         (runs sample_env (stop sample_state) [Update (Fin (3 / 4)), Clear]) (Fin 2))
     = [CoreCall 1 (CUpdate (Fin 2))]
   \<and> \<not> emitting (runs sample_env (stop sample_state) [Update (Fin (3 / 4)), Clear])"
proof -
  let ?cs = "[Update (Fin (3 / 4)), Clear]"
  have a: "list_all (\<lambda>c. \<not> restarts c) ?cs" by simp
  have b: "map_option (\<lambda>s. (sys_id s, sys_initialized s))
             (system (runs sample_env (stop sample_state) ?cs)) = Some (1, True)"
    by (simp add: runs_def stop_def update_def clear_def core_def call_def emit_def
        sample_state_def sample_system_def Let_def)
  show ?thesis
    using stop_halts_emission [OF a, of sample_env sample_state "Fin 2"] b
    by (auto split: option.splits)
qed

text \<open>
  The claim as stated fails where a \<open>setProps\<close> with \<open>autoStart: true\<close> comes between
  \<open>stop()\<close> and the next \<open>start()\<close>: emission is switched on again and the next \<open>update\<close>
  spawns.
\<close>

theorem autoStart_resumes_counterexample:
  "\<not> emitting (stop sample_state)
   \<and> emitting (runs sample_env (stop sample_state) [SetProps [(''autoStart'', JBool True)]])
   \<and> new_events (runs sample_env (stop sample_state) [SetProps [(''autoStart'', JBool True)]])
       (update sample_env
          (runs sample_env (stop sample_state) [SetProps [(''autoStart'', JBool True)]])
          (Fin (3 / 4)))
     = [CoreCall 1 (CSpawn (Fin 0) (Fin 1) (Fin 0) (Fin 3) None),
        CoreCall 1 (CUpdate (Fin (3 / 4)))]"
  by (simp add: runs_def stop_def update_def setProps_def setProps_run_def
      applyUniformUpdates_def uniformValues_def on_system_def updateUniformsPartial_def
      core_def call_def emit_def new_events_def has_key_def get_prop_def STRUCTURAL_KEYS_def
      spread_def falsy_num_def sample_env_def sample_state_def sample_system_def Let_def)

text \<open>
  C7 (corrected). After \<open>dispose()\<close> the instance holds no system and is not initialised; a
  second \<open>dispose()\<close> changes nothing but to ask once more, in debug mode, for the debug
  panel to be destroyed; and however often it is repeated, no further call reaches a
  system and the group is left as it is.
\<close>

theorem dispose_idempotent:
  "system (dispose st) = None \<and> \<not> initialized (dispose st)
   \<and> dispose (dispose st)
       = (if debug st then emit DestroyDebugPanel (dispose st) else dispose st)
   \<and> system ((dispose ^^ n) (dispose st)) = None
   \<and> \<not> initialized ((dispose ^^ n) (dispose st))
   \<and> group_children ((dispose ^^ n) (dispose st)) = group_children (dispose st)
   \<and> filter is_core_call (trace ((dispose ^^ n) (dispose st)))
       = filter is_core_call (trace (dispose st))"
proof -
  have "dispose (dispose st)
       = (if debug st then emit DestroyDebugPanel (dispose st) else dispose st)"
    by (simp add: dispose_no_system dispose_fields emit_def)
  then show ?thesis
    using dispose_funpow [of n st] by (simp add: dispose_fields)
qed

text \<open>
  The claim as stated fails in debug mode: the second \<open>dispose()\<close> of an instance built
  with \<open>debug: true\<close> calls \<open>destroyDebugPanel()\<close> again.
\<close>

theorem dispose_twice_counterexample:
  "debug (constructor [(''debug'', JBool True)])
   \<and> new_events (dispose (constructor [(''debug'', JBool True)]))
       (dispose (dispose (constructor [(''debug'', JBool True)])))
     = [DestroyDebugPanel]
   \<and> dispose (dispose (constructor [(''debug'', JBool True)]))
       \<noteq> dispose (constructor [(''debug'', JBool True)])"
  by (simp add: dispose_def constructor_def emit_def new_events_def get_prop_def coalesce_def
      nullish_def Let_def)

text \<open>
  C8. When the \<open>colorEnd\<close> of the configuration is \<open>null\<close> or \<open>undefined\<close>, a uniform-level
  update of \<open>colorStart\<close> hands \<open>colorEnd: null\<close> together with the new \<open>colorStart\<close> to
  \<open>updateUniformsPartial\<close>; the \<open>colorEnd\<close> uniforms then mirror \<open>colorStart\<close>, and the
  life-interpolated colour of a particle is the \<open>colorStart\<close> colour at every point of its
  lifetime.
\<close>

theorem colorEnd_mirrors_colorStart:
  assumes "system st = Some s" and "has_key newValues ''colorStart''"
    and "truthy (get_prop newValues ''colorStart'')"
    and "nullish (get_prop (config st) ''colorEnd'')"
  shows "get_prop (uniformValues st newValues) ''colorEnd'' = JNull
       \<and> get_prop (uniformValues st newValues) ''colorStart'' = get_prop newValues ''colorStart''
       \<and> hd (new_events st (applyUniformUpdates st newValues))
           = CoreCall (sys_id s) (CUpdateUniformsPartial (uniformValues st newValues))
       \<and> color_uniforms (applyUniformUpdates st newValues)
           = Some (get_prop newValues ''colorStart'', get_prop newValues ''colorStart'')
       \<and> (\<forall>s' t. system (applyUniformUpdates st newValues) = Some s'
             \<longrightarrow> lifeColor decode s' t = decode (get_prop newValues ''colorStart''))"
proof -
  let ?cs = "get_prop newValues ''colorStart''"
  have uv: "uniformValues st newValues =
           assign (assign newValues ''colorEnd'' JNull) ''colorStart'' ?cs"
    using assms(2-4) by (rule uniformValues_colorStart)
  have nn: "\<not> nullish ?cs" using assms(3) by (auto simp: nullish_def)
  have g: "get_prop (uniformValues st newValues) ''colorEnd'' = JNull"
    "get_prop (uniformValues st newValues) ''colorStart'' = ?cs"
    "has_key (uniformValues st newValues) ''colorEnd''"
    "has_key (uniformValues st newValues) ''colorStart''"
    by (simp_all add: uv assign_def get_prop_def has_key_def)
  have up: "uColorStart (updateUniformsPartial s (uniformValues st newValues)) = ?cs"
    "uColorEnd (updateUniformsPartial s (uniformValues st newValues)) = ?cs"
    using nn by (simp_all add: updateUniformsPartial_def g nullish_def Let_def)
  have cu: "color_uniforms (applyUniformUpdates st newValues) = Some (?cs, ?cs)"
    using color_uniforms_applyUniformUpdates [OF assms(1), of newValues] by (simp add: up)
  have life: "\<forall>s' t. system (applyUniformUpdates st newValues) = Some s'
             \<longrightarrow> lifeColor decode s' t = decode ?cs"
  proof (intro allI impI)
    fix s' t
    assume "system (applyUniformUpdates st newValues) = Some s'"
    with cu have "uColorStart s' = ?cs" "uColorEnd s' = ?cs"
      by (simp_all add: color_uniforms_def)
    then show "lifeColor decode s' t = decode ?cs"
      by (simp add: lifeColor_def split: prod.splits)
  qed
  have tr: "trace (on_system (CUpdateUniformsPartial (uniformValues st newValues))
         (\<lambda>s. updateUniformsPartial s (uniformValues st newValues)) st)
       = trace st @ [CoreCall (sys_id s) (CUpdateUniformsPartial (uniformValues st newValues))]"
    using assms(1) by (simp add: trace_on_system)
  have hd: "hd (new_events st (applyUniformUpdates st newValues))
           = CoreCall (sys_id s) (CUpdateUniformsPartial (uniformValues st newValues))"
    using assms(1) tr
    by (simp add: applyUniformUpdates_def Let_def new_events_def trace_on_system
        split: option.splits)
  show ?thesis using g(1,2) hd cu life by blast
qed

theorem colorEnd_mirrors_colorStart_witness:
  "get_prop (uniformValues sample_state [(''colorStart'', JArr [JStr ''#ff0000''])]) ''colorEnd''
     = JNull
   \<and> color_uniforms (applyUniformUpdates sample_state [(''colorStart'', JArr [JStr ''#ff0000''])])
     = Some (JArr [JStr ''#ff0000''], JArr [JStr ''#ff0000''])"
proof -
  have a: "system sample_state = Some sample_system"
    by (simp add: sample_state_def)
  have b: "has_key [(''colorStart'', JArr [JStr ''#ff0000''])] ''colorStart''"
    "truthy (get_prop [(''colorStart'', JArr [JStr ''#ff0000''])] ''colorStart'')"
    by (simp_all add: has_key_def get_prop_def)
  have c: "nullish (get_prop (config sample_state) ''colorEnd'')"
    by (simp add: sample_state_def get_prop_def nullish_def)
  have v: "get_prop [(''colorStart'', JArr [JStr ''#ff0000''])] ''colorStart''
             = JArr [JStr ''#ff0000'']"
    by (simp add: get_prop_def)
  show ?thesis
    using colorEnd_mirrors_colorStart [OF a b c] by (simp add: v)
qed

text \<open>
  C9. \<open>init()\<close> initialises at most once: on an initialised instance it returns at once and
  changes nothing, so a second call after a completed first one builds no system, adds no
  render object and renders no debug panel. After \<open>dispose()\<close> the instance is not
  initialised, and an \<open>init()\<close> that completes builds a system again.
\<close>

theorem init_at_most_once:
  "(initialized st \<longrightarrow> init e st = (st, Resolved))
   \<and> (snd (init e st) = Resolved \<longrightarrow>
        init e (fst (init e st)) = (fst (init e st), Resolved))
   \<and> \<not> initialized (dispose st)
   \<and> (snd (init e (dispose st)) = Resolved \<longrightarrow>
        initialized (fst (init e (dispose st)))
        \<and> system (fst (init e (dispose st))) \<noteq> None
        \<and> recreated (dispose st) (fst (init e (dispose st))))"
proof -
  have d: "\<not> initialized (dispose st)" by (simp add: dispose_def Let_def)
  show ?thesis
    using d init_first [OF d, of e] init_resolved_initialized [of e st]
      init_initialized [of st e] init_initialized [of "fst (init e st)" e]
    by blast
qed

theorem init_at_most_once_witness:
  "snd (init sample_env (constructor [(''maxParticles'', JNum 100), (''debug'', JBool True)]))
     = Resolved
   \<and> init sample_env
        (fst (init sample_env (constructor [(''maxParticles'', JNum 100), (''debug'', JBool True)])))
     = (fst (init sample_env (constructor [(''maxParticles'', JNum 100), (''debug'', JBool True)])),
        Resolved)
   \<and> snd (init sample_env (dispose sample_state)) = Resolved
   \<and> recreated (dispose sample_state) (fst (init sample_env (dispose sample_state)))"
proof -
  have a: "snd (init sample_env
               (constructor [(''maxParticles'', JNum 100), (''debug'', JBool True)])) = Resolved"
    by (simp add: init_def recreateSystem_def constructor_def sample_env_def sample_system_def
        get_prop_def coalesce_def nullish_def spread_def call_def emit_def Let_def)
  have b: "snd (init sample_env (dispose sample_state)) = Resolved"
    by (simp add: init_def recreateSystem_def dispose_def sample_env_def sample_state_def
        sample_system_def spread_def call_def emit_def Let_def)
  show ?thesis
    using a b
      init_at_most_once [of "constructor [(''maxParticles'', JNum 100), (''debug'', JBool True)]"
        sample_env]
      init_at_most_once [of sample_state sample_env]
    by blast
qed

text \<open>
  C10. Auto-emission pacing, on doubles. While emitting, an \<open>update(delta)\<close> with a falsy
  delay (zero or NaN) spawns \<open>emitCount\<close> particles once and leaves the accumulator. With
  any other delay, \<open>delta\<close> is added to the accumulator; when the sum is at least the
  delay, the delay is subtracted from it (the remainder is kept) and \<open>emitCount\<close>
  particles are spawned once, otherwise nothing is spawned. No call of \<open>update\<close> spawns
  more than once.
\<close>

theorem update_auto_emission_pacing:
  assumes "system st = Some s" and "sys_initialized s" and "emitting st"
    and "sys_position s = (px, py, pz)"
  shows "(falsy_num (sys_delay s) \<longrightarrow>
            new_events st (update e st delta) =
              [CoreCall (sys_id s) (CSpawn px py pz (sys_emitCount s) None),
               CoreCall (sys_id s) (CUpdate delta)]
            \<and> emitAccumulator (update e st delta) = emitAccumulator st)
       \<and> (\<not> falsy_num (sys_delay s)
            \<and> fge (fadd (roundDouble e) (emitAccumulator st) delta) (sys_delay s) \<longrightarrow>
            new_events st (update e st delta) =
              [CoreCall (sys_id s) (CSpawn px py pz (sys_emitCount s) None),
               CoreCall (sys_id s) (CUpdate delta)]
            \<and> emitAccumulator (update e st delta)
                = fsub (roundDouble e) (fadd (roundDouble e) (emitAccumulator st) delta)
                    (sys_delay s))
       \<and> (\<not> falsy_num (sys_delay s)
            \<and> \<not> fge (fadd (roundDouble e) (emitAccumulator st) delta) (sys_delay s) \<longrightarrow>
            new_events st (update e st delta) = [CoreCall (sys_id s) (CUpdate delta)]
            \<and> emitAccumulator (update e st delta)
                = fadd (roundDouble e) (emitAccumulator st) delta)
       \<and> length (filter is_spawn (new_events st (update e st delta))) \<le> 1"
  using assms
  by (simp add: update_def core_def call_def emit_def new_events_def Let_def)

theorem update_auto_emission_pacing_witness:
  "new_events sample_state (update sample_env sample_state (Fin (3 / 4))) =
        [CoreCall 1 (CSpawn (Fin 0) (Fin 1) (Fin 0) (Fin 3) None),
         CoreCall 1 (CUpdate (Fin (3 / 4)))]
   \<and> emitAccumulator (update sample_env sample_state (Fin (3 / 4))) = Fin (1 / 4)
   \<and> new_events sample_state (update sample_env sample_state (Fin (1 / 4)))
       = [CoreCall 1 (CUpdate (Fin (1 / 4)))]
   \<and> emitAccumulator (update sample_env sample_state (Fin (1 / 4))) = Fin (1 / 4)
   \<and> new_events (sample_state\<lparr>system := Some (sample_system\<lparr>sys_delay := NaN\<rparr>)\<rparr>)
       (update sample_env (sample_state\<lparr>system := Some (sample_system\<lparr>sys_delay := NaN\<rparr>)\<rparr>)
          (Fin (1 / 4)))
       = [CoreCall 1 (CSpawn (Fin 0) (Fin 1) (Fin 0) (Fin 3) None),
          CoreCall 1 (CUpdate (Fin (1 / 4)))]"
proof -
  have h: "system sample_state = Some sample_system" "sys_initialized sample_system"
    "emitting sample_state" "sys_position sample_system = (Fin 0, Fin 1, Fin 0)"
    by (simp_all add: sample_state_def sample_system_def)
  let ?n = "sample_state\<lparr>system := Some (sample_system\<lparr>sys_delay := NaN\<rparr>)\<rparr>"
  have hn: "system ?n = Some (sample_system\<lparr>sys_delay := NaN\<rparr>)"
    "sys_initialized (sample_system\<lparr>sys_delay := NaN\<rparr>)"
    "emitting ?n" "sys_position (sample_system\<lparr>sys_delay := NaN\<rparr>) = (Fin 0, Fin 1, Fin 0)"
    by (simp_all add: sample_state_def sample_system_def)
  have v: "sys_delay sample_system = Fin (1 / 2)" "sys_emitCount sample_system = Fin 3"
    "sys_id sample_system = 1" "emitAccumulator sample_state = Fin 0"
    "roundDouble sample_env = Fin"
    by (simp_all add: sample_state_def sample_system_def sample_env_def)
  show ?thesis
    using update_auto_emission_pacing [OF h, of sample_env "Fin (3 / 4)"]
      update_auto_emission_pacing [OF h, of sample_env "Fin (1 / 4)"]
      update_auto_emission_pacing [OF hn, of sample_env "Fin (1 / 4)"]
    by (simp add: v falsy_num_def fsub_def)
qed

end
